theory Spec2Isabelle
  imports Complex_Main
begin

section \<open>Exceptions and effectful code\<close>

text \<open>
  The module \<open>libqtile/images.py\<close> is embedded function by function. A number
  written to \<open>width\<close>, \<open>height\<close> or \<open>theta\<close> (an int or a finite float) is given
  by the real number it denotes; a stored pixel size is an \<open>int\<close>. Every raise of the source is a value \<open>Inl e\<close>; a method that
  mutates the handle takes the state and returns the state it leaves behind, also when
  it raises.
\<close>

datatype exn =
    TypeError
  | AttributeError
  | ValueError string
  | ZeroDivisionError
  | OverflowError
  | ImageLoadingError
  | OSError string
  | LoadingError "string list"

type_synonym ('s, 'a) prog = "'s \<Rightarrow> (exn + 'a) \<times> 's"

definition ret :: "'a \<Rightarrow> ('s, 'a) prog" where
  "ret v = (\<lambda>s. (Inr v, s))"

definition raise_exn :: "exn \<Rightarrow> ('s, 'a) prog" where
  "raise_exn e = (\<lambda>s. (Inl e, s))"

definition thn :: "('s, 'a) prog \<Rightarrow> ('a \<Rightarrow> ('s, 'b) prog) \<Rightarrow> ('s, 'b) prog" where
  "thn m f = (\<lambda>s. case m s of (Inl e, s') \<Rightarrow> (Inl e, s') | (Inr v, s') \<Rightarrow> f v s')"

section \<open>Cairo objects\<close>

type_synonym bytes = string

text \<open>An image surface: an object with an identity and a pixel size.\<close>

record surface =
  sid :: nat
  get_width :: int
  get_height :: int

text \<open>
  A cairo matrix \<open>(xx, yx, xy, yy, x0, y0)\<close> sends \<open>(x, y)\<close> to
  \<open>(xx * x + xy * y + x0, yx * x + yy * y + y0)\<close>. \<open>multiply a b\<close> is the
  transformation that applies \<open>a\<close> first and \<open>b\<close> second; \<open>scale\<close>,
  \<open>translate\<close> and \<open>rotate\<close> put the new transformation before the one already in
  the matrix, as cairo documents them.
\<close>

record matrix =
  xx :: real
  yx :: real
  xy :: real
  yy :: real
  x0 :: real
  y0 :: real

definition Matrix :: matrix where
  "Matrix = \<lparr>xx = 1, yx = 0, xy = 0, yy = 1, x0 = 0, y0 = 0\<rparr>"

definition multiply :: "matrix \<Rightarrow> matrix \<Rightarrow> matrix" where
  "multiply a b =
     \<lparr>xx = xx a * xx b + yx a * xy b,
      yx = xx a * yx b + yx a * yy b,
      xy = xy a * xx b + yy a * xy b,
      yy = xy a * yx b + yy a * yy b,
      x0 = x0 a * xx b + y0 a * xy b + x0 b,
      y0 = x0 a * yx b + y0 a * yy b + y0 b\<rparr>"

definition scale_matrix :: "real \<Rightarrow> real \<Rightarrow> matrix \<Rightarrow> matrix" where
  "scale_matrix sx sy m =
     multiply \<lparr>xx = sx, yx = 0, xy = 0, yy = sy, x0 = 0, y0 = 0\<rparr> m"

definition translate :: "real \<Rightarrow> real \<Rightarrow> matrix \<Rightarrow> matrix" where
  "translate tx ty m =
     multiply \<lparr>xx = 1, yx = 0, xy = 0, yy = 1, x0 = tx, y0 = ty\<rparr> m"

definition rotate :: "real \<Rightarrow> matrix \<Rightarrow> matrix" where
  "rotate r m =
     multiply \<lparr>xx = cos r, yx = sin r, xy = - sin r, yy = cos r, x0 = 0, y0 = 0\<rparr> m"

definition transform_point :: "matrix \<Rightarrow> real \<times> real \<Rightarrow> real \<times> real" where
  "transform_point m p =
     (xx m * fst p + xy m * snd p + x0 m, yx m * fst p + yy m * snd p + y0 m)"

record pattern =
  pid :: nat
  pat_surface :: surface
  pat_matrix :: matrix

section \<open>The decoder boundary\<close>

text \<open>
  \<open>cairocffi.pixbuf.decode_to_image_surface\<close> is external. It is a parameter: given the
  bytes and the arguments of the call it either returns a surface of some size and a
  format name, or raises. The arguments are \<open>Some (width, height)\<close> for the call with
  three arguments (each may be Python's \<open>None\<close>) and \<open>None\<close> for the call with the
  bytes alone.
\<close>

datatype decoded = Decoded int int string | Raises exn

type_synonym dec_args = "(int option \<times> int option) option"

type_synonym decoder = "bytes \<Rightarrow> dec_args \<Rightarrow> decoded"

section \<open>The image handle\<close>

text \<open>
  The attributes of an \<open>Img\<close> instance; an attribute that is not set is \<open>None\<close>.
  \<open>under_width\<close> is the attribute \<open>_width\<close> of the source, and so on. The record
  also carries what the handle does to its environment: \<open>next_id\<close> numbers the objects
  created so far (object identity), \<open>calls\<close> logs every call of the decoder with its
  outcome, \<open>finished\<close> lists the surfaces on which \<open>finish()\<close> was called and
  \<open>warnings\<close> counts the calls of \<open>logger.exception\<close>.
\<close>

record img =
  bytes_img :: bytes
  name :: string
  path :: string
  under_theta :: "real option"
  under_width :: "int option"
  under_height :: "int option"
  under_default_surface :: "surface option"
  under_default_size :: "(int \<times> int) option"
  under_surface :: "surface option"
  under_pattern :: "pattern option"
  next_id :: nat
  calls :: "(dec_args \<times> decoded) list"
  finished :: "nat list"
  warnings :: nat

definition Img :: "bytes \<Rightarrow> string \<Rightarrow> string \<Rightarrow> img" where
  "Img b n p =
     \<lparr>bytes_img = b, name = n, path = p,
      under_theta = None, under_width = None, under_height = None,
      under_default_surface = None, under_default_size = None,
      under_surface = None, under_pattern = None,
      next_id = 0, calls = [], finished = [], warnings = 0\<rparr>"

definition decode_to_image_surface ::
  "decoder \<Rightarrow> bytes \<Rightarrow> dec_args \<Rightarrow> (img, surface \<times> string) prog" where
  "decode_to_image_surface dec b a = (\<lambda>s.
     let s1 = s\<lparr>calls := calls s @ [(a, dec b a)]\<rparr> in
     case dec b a of
       Raises e \<Rightarrow> (Inl e, s1)
     | Decoded w h fmt \<Rightarrow>
         (Inr (\<lparr>sid = next_id s1, get_width = w, get_height = h\<rparr>, fmt),
          s1\<lparr>next_id := Suc (next_id s1)\<rparr>))"

definition get_cairo_surface ::
  "decoder \<Rightarrow> bytes \<Rightarrow> int option \<Rightarrow> int option \<Rightarrow> (img, surface \<times> string) prog" where
  "get_cairo_surface dec b width height = (\<lambda>s.
     case decode_to_image_surface dec b (Some (width, height)) s of
       (Inl TypeError, s1) \<Rightarrow>
         decode_to_image_surface dec b None (s1\<lparr>warnings := Suc (warnings s1)\<rparr>)
     | r \<Rightarrow> r)"

text \<open>
  \<open>get_cairo_pattern\<close>: the matrix of the pattern, then the pattern object. A division
  by a zero \<open>width\<close> or \<open>height\<close> raises.
\<close>

definition pattern_matrix ::
  "surface \<Rightarrow> real option \<Rightarrow> real option \<Rightarrow> real \<Rightarrow> exn + matrix" where
  "pattern_matrix surf width height theta =
     (let surf_width = real_of_int (get_width surf);
          surf_height = real_of_int (get_height surf)
      in if width \<noteq> None \<and> the width \<noteq> surf_width \<and> the width = 0 then Inl ZeroDivisionError
         else if height \<noteq> None \<and> the height \<noteq> surf_height \<and> the height = 0
         then Inl ZeroDivisionError
         else
           let tr_width = (if width \<noteq> None \<and> the width \<noteq> surf_width
                           then surf_width / the width else 1);
               tr_height = (if height \<noteq> None \<and> the height \<noteq> surf_height
                            then surf_height / the height else 1);
               matrix = scale_matrix tr_width tr_height Matrix;
               epsilon = 1 / 1000000;
               pi_value = 3141592653589793 / 1000000000000000
           in if \<bar>theta\<bar> > epsilon then
                let theta_rad = pi_value / 180 * theta;
                    xt = surf_width * tr_width * (1 / 2);
                    yt = surf_height * tr_height * (1 / 2);
                    mat_rot = translate (- xt) (- yt) (rotate theta_rad (translate xt yt Matrix))
                in Inr (multiply mat_rot matrix)
              else Inr matrix)"

definition get_cairo_pattern ::
  "surface \<Rightarrow> real option \<Rightarrow> real option \<Rightarrow> real \<Rightarrow> (img, pattern) prog" where
  "get_cairo_pattern surf width height theta = (\<lambda>s.
     case pattern_matrix surf width height theta of
       Inl e \<Rightarrow> (Inl e, s\<lparr>next_id := Suc (next_id s)\<rparr>)
     | Inr m \<Rightarrow>
         (Inr \<lparr>pid = next_id s, pat_surface = surf, pat_matrix = m\<rparr>,
          s\<lparr>next_id := Suc (next_id s)\<rparr>))"

subsection \<open>Memoised natural size\<close>

definition default_surface :: "decoder \<Rightarrow> (img, surface) prog" where
  "default_surface dec = (\<lambda>s.
     case under_default_surface s of
       Some surf \<Rightarrow> (Inr surf, s)
     | None \<Rightarrow>
         (case get_cairo_surface dec (bytes_img s) None None s of
            (Inl e, s1) \<Rightarrow> (Inl e, s1)
          | (Inr (surf, fmt), s1) \<Rightarrow> (Inr surf, s1\<lparr>under_default_surface := Some surf\<rparr>)))"

definition default_size :: "decoder \<Rightarrow> (img, int \<times> int) prog" where
  "default_size dec = (\<lambda>s.
     case under_default_size s of
       Some sz \<Rightarrow> (Inr sz, s)
     | None \<Rightarrow>
         (case default_surface dec s of
            (Inl e, s1) \<Rightarrow> (Inl e, s1)
          | (Inr surf, s1) \<Rightarrow>
              (let sz = (get_width surf, get_height surf)
               in (Inr sz, s1\<lparr>under_default_size := Some sz\<rparr>))))"

subsection \<open>The descriptors: reading\<close>

definition theta :: "(img, real) prog" where
  "theta = (\<lambda>s. case under_theta s of Some t \<Rightarrow> (Inr t, s) | None \<Rightarrow> (Inr 0, s))"

definition width :: "decoder \<Rightarrow> (img, int) prog" where
  "width dec = (\<lambda>s.
     case under_width s of
       Some w \<Rightarrow> (Inr w, s)
     | None \<Rightarrow> thn (default_size dec) (\<lambda>sz. ret (fst sz)) s)"

definition height :: "decoder \<Rightarrow> (img, int) prog" where
  "height dec = (\<lambda>s.
     case under_height s of
       Some h \<Rightarrow> (Inr h, s)
     | None \<Rightarrow> thn (default_size dec) (\<lambda>sz. ret (snd sz)) s)"

subsection \<open>The cached surface and pattern\<close>

definition surface :: "decoder \<Rightarrow> (img, surface) prog" where
  "surface dec = (\<lambda>s.
     case under_surface s of
       Some surf \<Rightarrow> (Inr surf, s)
     | None \<Rightarrow>
         thn (width dec) (\<lambda>w.
         thn (height dec) (\<lambda>h.
         thn (\<lambda>s1. get_cairo_surface dec (bytes_img s1) (Some w) (Some h) s1) (\<lambda>r s2.
           (Inr (fst r), s2\<lparr>under_surface := Some (fst r)\<rparr>)))) s)"

definition del_surface :: "(img, unit) prog" where
  "del_surface = (\<lambda>s. (Inr (), s\<lparr>under_surface := None\<rparr>))"

definition pattern :: "decoder \<Rightarrow> (img, pattern) prog" where
  "pattern dec = (\<lambda>s.
     case under_pattern s of
       Some pat \<Rightarrow> (Inr pat, s)
     | None \<Rightarrow>
         thn (surface dec) (\<lambda>surf.
         thn (width dec) (\<lambda>w.
         thn (height dec) (\<lambda>h.
         thn theta (\<lambda>t.
         thn (get_cairo_pattern surf (Some (real_of_int w)) (Some (real_of_int h)) t) (\<lambda>pat s2.
           (Inr pat, s2\<lparr>under_pattern := Some pat\<rparr>)))))) s)"

definition del_pattern :: "(img, unit) prog" where
  "del_pattern = (\<lambda>s. (Inr (), s\<lparr>under_pattern := None\<rparr>))"

text \<open>
  \<open>hasattr(self, "surface")\<close> runs the property: it is true when the property returns,
  false when it raises \<open>AttributeError\<close>, and any other exception passes through.
\<close>

definition hasattr :: "(img, 'a) prog \<Rightarrow> (img, bool) prog" where
  "hasattr getter = (\<lambda>s.
     case getter s of
       (Inr v, s1) \<Rightarrow> (Inr True, s1)
     | (Inl AttributeError, s1) \<Rightarrow> (Inr False, s1)
     | (Inl e, s1) \<Rightarrow> (Inl e, s1))"

definition finish :: "surface \<Rightarrow> (img, unit) prog" where
  "finish surf = (\<lambda>s. (Inr (), s\<lparr>finished := finished s @ [sid surf]\<rparr>))"

definition reset :: "decoder \<Rightarrow> (img, unit) prog" where
  "reset dec =
     thn (thn (hasattr (surface dec)) (\<lambda>b.
            if b then thn (surface dec) (\<lambda>surf. thn (finish surf) (\<lambda>u. del_surface))
            else ret ()))
       (\<lambda>u. thn (hasattr (pattern dec)) (\<lambda>b. if b then del_pattern else ret ()))"

subsection \<open>The descriptors: writing\<close>

text \<open>Python's \<open>round\<close> of a number: to the nearest integer, a tie to the even one.\<close>

definition py_round :: "real \<Rightarrow> int" where
  "py_round v =
     (let f = \<lfloor>v\<rfloor>; d = v - real_of_int f
      in if d < 1 / 2 then f else if 1 / 2 < d then f + 1
         else if even f then f else f + 1)"

definition set_width :: "decoder \<Rightarrow> real \<Rightarrow> (img, unit) prog" where
  "set_width dec v = (\<lambda>s.
     let v1 = max (py_round v) 1 in reset dec (s\<lparr>under_width := Some v1\<rparr>))"

definition set_height :: "decoder \<Rightarrow> real \<Rightarrow> (img, unit) prog" where
  "set_height dec v = (\<lambda>s.
     let v1 = max (py_round v) 1 in reset dec (s\<lparr>under_height := Some v1\<rparr>))"

definition set_theta :: "decoder \<Rightarrow> real \<Rightarrow> (img, unit) prog" where
  "set_theta dec v = (\<lambda>s. reset dec (s\<lparr>under_theta := Some v\<rparr>))"

subsection \<open>Python numbers\<close>

text \<open>
  The arguments of \<open>resize\<close> and \<open>scale\<close> are Python numbers: an int, or a float,
  which is finite (given by the real number it denotes), infinite or nan. The sign of an
  infinity is not kept: nothing below depends on it.
\<close>

datatype pynum = PyInt int | PyFloat real | PyInf | PyNan

text \<open>
  Rounding of a real to the nearest binary64 float, a tie to the even significand, with
  gradual underflow (the spacing never goes below \<open>2^-1074\<close>); \<open>fl\<close> is the result of
  a float operation whose exact value is \<open>x\<close>, infinite beyond the float range.
\<close>

definition float_round :: "real \<Rightarrow> real" where
  "float_round x =
     (if x = 0 then 0
      else let e = max \<lfloor>log 2 \<bar>x\<bar>\<rfloor> (- 1022); ulp = 2 powr (real_of_int e - 52)
           in real_of_int (py_round (x / ulp)) * ulp)"

definition overflow_threshold :: real where
  "overflow_threshold = 2 ^ 1024"

definition fl :: "real \<Rightarrow> pynum" where
  "fl x = (if overflow_threshold \<le> \<bar>float_round x\<bar> then PyInf else PyFloat (float_round x))"

text \<open>
  An int operand of a mixed operation is converted to a float first; Python raises
  \<open>OverflowError\<close> when it is too large.
\<close>

definition to_float :: "pynum \<Rightarrow> exn + pynum" where
  "to_float x =
     (case x of
        PyInt i \<Rightarrow>
          (if overflow_threshold \<le> \<bar>float_round (real_of_int i)\<bar> then Inl OverflowError
           else Inr (PyFloat (float_round (real_of_int i))))
      | _ \<Rightarrow> Inr x)"

fun float_mul :: "pynum \<Rightarrow> pynum \<Rightarrow> pynum" where
  "float_mul (PyFloat a) (PyFloat b) = fl (a * b)"
| "float_mul PyInf (PyFloat b) = (if b = 0 then PyNan else PyInf)"
| "float_mul (PyFloat a) PyInf = (if a = 0 then PyNan else PyInf)"
| "float_mul PyInf PyInf = PyInf"
| "float_mul x y = PyNan"

fun float_div :: "pynum \<Rightarrow> pynum \<Rightarrow> exn + pynum" where
  "float_div x (PyFloat b) =
     (if b = 0 then Inl ZeroDivisionError
      else case x of PyFloat a \<Rightarrow> Inr (fl (a / b)) | PyInf \<Rightarrow> Inr PyInf | _ \<Rightarrow> Inr PyNan)"
| "float_div (PyFloat a) PyInf = Inr (PyFloat 0)"
| "float_div x y = Inr PyNan"

definition bindE :: "exn + 'a \<Rightarrow> ('a \<Rightarrow> exn + 'b) \<Rightarrow> exn + 'b" where
  "bindE m f = (case m of Inl e \<Rightarrow> Inl e | Inr v \<Rightarrow> f v)"

text \<open>
  \<open>x * y\<close> and \<open>x / y\<close>: exact on two ints for the product, the correctly rounded
  quotient for the true division of two ints, float arithmetic otherwise.
\<close>

definition py_mul :: "pynum \<Rightarrow> pynum \<Rightarrow> exn + pynum" where
  "py_mul x y =
     (case (x, y) of
        (PyInt i, PyInt j) \<Rightarrow> Inr (PyInt (i * j))
      | _ \<Rightarrow> bindE (to_float x) (\<lambda>a. bindE (to_float y) (\<lambda>b. Inr (float_mul a b))))"

definition py_truediv :: "pynum \<Rightarrow> pynum \<Rightarrow> exn + pynum" where
  "py_truediv x y =
     (case (x, y) of
        (PyInt i, PyInt j) \<Rightarrow>
          (if j = 0 then Inl ZeroDivisionError
           else if overflow_threshold \<le> \<bar>float_round (real_of_int i / real_of_int j)\<bar>
           then Inl OverflowError
           else Inr (PyFloat (float_round (real_of_int i / real_of_int j))))
      | _ \<Rightarrow> bindE (to_float x) (\<lambda>a. bindE (to_float y) (\<lambda>b. float_div a b)))"

subsection \<open>resize and scale\<close>

text \<open>Truthiness of an optional number: \<open>None\<close> and zero are false.\<close>

definition truthy :: "pynum option \<Rightarrow> bool" where
  "truthy v =
     (case v of
        None \<Rightarrow> False
      | Some (PyInt i) \<Rightarrow> i \<noteq> 0
      | Some (PyFloat r) \<Rightarrow> r \<noteq> 0
      | Some n \<Rightarrow> True)"

text \<open>
  \<open>_scale_lock\<close> and \<open>_scale_free\<close>. The message of the \<open>ValueError\<close> is kept up to
  the two factors that the source appends to it.
\<close>

definition scale_lock ::
  "pynum option \<Rightarrow> pynum option \<Rightarrow> int \<times> int \<Rightarrow> exn + pynum \<times> pynum" where
  "scale_lock width_factor height_factor initial_size =
     (if truthy width_factor \<and> truthy height_factor
      then Inl (ValueError ''Can't rescale with locked aspect ratio and give width_factor and height_factor.'')
      else
        let width0 = PyInt (fst initial_size);
            height0 = PyInt (snd initial_size)
        in if truthy width_factor then
             bindE (py_mul width0 (the width_factor)) (\<lambda>w.
             bindE (py_truediv height0 width0) (\<lambda>r.
             bindE (py_mul r w) (\<lambda>h. Inr (w, h))))
           else
             (case height_factor of
                None \<Rightarrow> Inl TypeError
              | Some hf \<Rightarrow>
                  bindE (py_mul height0 hf) (\<lambda>h.
                  bindE (py_truediv width0 height0) (\<lambda>r.
                  bindE (py_mul r h) (\<lambda>w. Inr (w, h))))))"

definition scale_free ::
  "pynum option \<Rightarrow> pynum option \<Rightarrow> int \<times> int \<Rightarrow> exn + pynum \<times> pynum" where
  "scale_free width_factor height_factor initial_size =
     (let wf = (case width_factor of None \<Rightarrow> PyInt 1 | Some f \<Rightarrow> f);
          hf = (case height_factor of None \<Rightarrow> PyInt 1 | Some f \<Rightarrow> f)
      in bindE (py_mul (PyInt (fst initial_size)) wf) (\<lambda>w.
         bindE (py_mul (PyInt (snd initial_size)) hf) (\<lambda>h. Inr (w, h))))"

text \<open>
  Assigning a number to \<open>width\<close> or \<open>height\<close>: \<open>round\<close> raises on an infinity and
  on nan, before anything is stored.
\<close>

definition assign_size :: "(real \<Rightarrow> (img, unit) prog) \<Rightarrow> pynum \<Rightarrow> (img, unit) prog" where
  "assign_size setter v =
     (case v of
        PyInt i \<Rightarrow> setter (real_of_int i)
      | PyFloat r \<Rightarrow> setter r
      | PyInf \<Rightarrow> raise_exn OverflowError
      | PyNan \<Rightarrow> raise_exn (ValueError ''cannot convert float NaN to integer''))"

definition scale :: "decoder \<Rightarrow> pynum option \<Rightarrow> pynum option \<Rightarrow> bool \<Rightarrow> (img, unit) prog" where
  "scale dec width_factor height_factor lock_aspect_ratio =
     (if \<not> (truthy width_factor \<or> truthy height_factor)
      then raise_exn (ValueError ''You must supply width_factor or height_factor'')
      else
        thn (default_size dec) (\<lambda>sz.
        thn (\<lambda>s. if lock_aspect_ratio
                  then (scale_lock width_factor height_factor sz, s)
                  else (scale_free width_factor height_factor sz, s)) (\<lambda>res.
        thn (assign_size (set_width dec) (fst res)) (\<lambda>u.
          assign_size (set_height dec) (snd res)))))"

definition resize :: "decoder \<Rightarrow> pynum option \<Rightarrow> pynum option \<Rightarrow> (img, unit) prog" where
  "resize dec w h =
     thn (default_size dec) (\<lambda>sz.
     thn (\<lambda>s. (case w of
                  None \<Rightarrow> Inr None
                | Some x \<Rightarrow> bindE (py_truediv x (PyInt (fst sz))) (\<lambda>f. Inr (Some f)), s))
       (\<lambda>width_factor.
     thn (\<lambda>s. (case h of
                  None \<Rightarrow> Inr None
                | Some x \<Rightarrow> bindE (py_truediv x (PyInt (snd sz))) (\<lambda>f. Inr (Some f)), s))
       (\<lambda>height_factor.
         if truthy w \<and> truthy h then scale dec width_factor height_factor False
         else if truthy w \<or> truthy h then scale dec width_factor height_factor True
         else raise_exn (ValueError ''You must supply either width or height!''))))"

subsection \<open>Deleting an attribute\<close>

text \<open>
  \<open>del img.width\<close>, \<open>del img.height\<close> and \<open>del img.theta\<close> go through
  \<open>_Descriptor.__delete__\<close>: the stored value is removed, \<open>AttributeError\<close> if there
  is none, and \<open>_reset\<close> is not called.
\<close>

definition del_width :: "(img, unit) prog" where
  "del_width = (\<lambda>s.
     case under_width s of
       None \<Rightarrow> (Inl AttributeError, s)
     | Some w \<Rightarrow> (Inr (), s\<lparr>under_width := None\<rparr>))"

definition del_height :: "(img, unit) prog" where
  "del_height = (\<lambda>s.
     case under_height s of
       None \<Rightarrow> (Inl AttributeError, s)
     | Some h \<Rightarrow> (Inr (), s\<lparr>under_height := None\<rparr>))"

definition del_theta :: "(img, unit) prog" where
  "del_theta = (\<lambda>s.
     case under_theta s of
       None \<Rightarrow> (Inl AttributeError, s)
     | Some t \<Rightarrow> (Inr (), s\<lparr>under_theta := None\<rparr>))"

subsection \<open>Sequences of operations on one handle\<close>

text \<open>
  What a caller can do with a handle through its attributes and methods. \<open>exec\<close> runs
  one operation and keeps the state it leaves, whether it returned or raised.
\<close>

datatype op =
    Get_width | Get_height | Get_theta
  | Set_width real | Set_height real | Set_theta real
  | Get_default_surface | Get_default_size
  | Get_surface | Get_pattern
  | Del_surface | Del_pattern
  | Del_width | Del_height | Del_theta
  | Resize "pynum option" "pynum option"
  | Scale "pynum option" "pynum option" bool

fun exec :: "decoder \<Rightarrow> op \<Rightarrow> img \<Rightarrow> img" where
  "exec dec Get_width s = snd (width dec s)"
| "exec dec Get_height s = snd (height dec s)"
| "exec dec Get_theta s = snd (theta s)"
| "exec dec (Set_width v) s = snd (set_width dec v s)"
| "exec dec (Set_height v) s = snd (set_height dec v s)"
| "exec dec (Set_theta v) s = snd (set_theta dec v s)"
| "exec dec Get_default_surface s = snd (default_surface dec s)"
| "exec dec Get_default_size s = snd (default_size dec s)"
| "exec dec Get_surface s = snd (surface dec s)"
| "exec dec Get_pattern s = snd (pattern dec s)"
| "exec dec Del_surface s = snd (del_surface s)"
| "exec dec Del_pattern s = snd (del_pattern s)"
| "exec dec Del_width s = snd (del_width s)"
| "exec dec Del_height s = snd (del_height s)"
| "exec dec Del_theta s = snd (del_theta s)"
| "exec dec (Resize w h) s = snd (resize dec w h s)"
| "exec dec (Scale wfac hfac lock) s = snd (scale dec wfac hfac lock s)"

definition run :: "decoder \<Rightarrow> op list \<Rightarrow> img \<Rightarrow> img" where
  "run dec ops s = fold (exec dec) ops s"

text \<open>
  Three decoders to run the handle on: one that honours the requested size (natural size
  100 x 50), one with the old one-argument interface, which rejects every call with
  three arguments, and one that honours the requested size but fails to load the image
  at width 20.
\<close>

definition dec_sized :: decoder where
  "dec_sized b a =
     (case a of
        Some (Some w, Some h) \<Rightarrow> Decoded w h ''png''
      | _ \<Rightarrow> Decoded 100 50 ''png'')"


definition dec_picky :: decoder where
  "dec_picky b a =
     (case a of
        Some (Some w, Some h) \<Rightarrow> (if w = 20 then Raises ImageLoadingError else Decoded w h ''png'')
      | _ \<Rightarrow> Decoded 100 50 ''png'')"

text \<open>The size the handle currently has, where it is known without decoding.\<close>

definition cur_width :: "img \<Rightarrow> int option" where
  "cur_width s =
     (case under_width s of Some w \<Rightarrow> Some w | None \<Rightarrow> map_option fst (under_default_size s))"

definition cur_height :: "img \<Rightarrow> int option" where
  "cur_height s =
     (case under_height s of Some h \<Rightarrow> Some h | None \<Rightarrow> map_option snd (under_default_size s))"

definition cur_theta :: "img \<Rightarrow> real" where
  "cur_theta s = (case under_theta s of Some t \<Rightarrow> t | None \<Rightarrow> 0)"

text \<open>
  A cached pattern is current when it wraps the cached surface and its matrix is the
  one \<open>get_cairo_pattern\<close> computes from that surface and the handle's width, height
  and theta as they are now.
\<close>

definition current_pattern :: "img \<Rightarrow> pattern \<Rightarrow> bool" where
  "current_pattern s pat =
     (case (cur_width s, cur_height s) of
        (Some w, Some h) \<Rightarrow>
          under_surface s = Some (pat_surface pat) \<and>
          pattern_matrix (pat_surface pat) (Some (real_of_int w)) (Some (real_of_int h))
            (cur_theta s) = Inr (pat_matrix pat)
      | _ \<Rightarrow> False)"

section \<open>The loader\<close>

text \<open>
  \<open>os.path.splitext\<close> and \<open>os.path.basename\<close> (POSIX): the extension starts at the
  last dot of the last path component, unless that component has only dots before it.
\<close>

fun rfind_from :: "char \<Rightarrow> string \<Rightarrow> int \<Rightarrow> int \<Rightarrow> int" where
  "rfind_from c [] i found = found"
| "rfind_from c (x # xs) i found = rfind_from c xs (i + 1) (if x = c then i else found)"

definition rfind :: "char \<Rightarrow> string \<Rightarrow> int" where
  "rfind c p = rfind_from c p 0 (- 1)"


definition splitext :: "string \<Rightarrow> string \<times> string" where
  "splitext p =
     (let sepIndex = rfind CHR ''/'' p; dotIndex = rfind CHR ''.'' p
      in if dotIndex > sepIndex \<and>
            list_ex (\<lambda>c. c \<noteq> CHR ''.'')
              (take (nat (dotIndex - (sepIndex + 1))) (drop (nat (sepIndex + 1)) p))
         then (take (nat dotIndex) p, drop (nat dotIndex) p)
         else (p, []))"



text \<open>
  The attributes of a \<open>Loader\<close> instance: \<open>directories\<close>, and whatever keyword
  arguments the constructor was given. An option value is a plain value, neither a class
  nor a dictionary, so Python refuses to assign it to \<open>__class__\<close> or \<open>__dict__\<close>;
  \<open>__weakref__\<close> is not writable; and a keyword named \<open>self\<close> collides with the first
  parameter of \<open>__init__\<close>, so the call itself raises.
\<close>

datatype 'v attr = Dirs "string list" | Opt 'v

type_synonym 'v loader = "string \<Rightarrow> 'v attr option"

definition setattr :: "string \<Rightarrow> 'v \<Rightarrow> 'v loader \<Rightarrow> exn + 'v loader" where
  "setattr k v self =
     (if k = ''__class__'' \<or> k = ''__dict__'' then Inl TypeError
      else if k = ''__weakref__'' then Inl AttributeError
      else Inr (self(k \<mapsto> Opt v)))"

fun setattrs :: "(string \<times> 'v) list \<Rightarrow> 'v loader \<Rightarrow> exn + 'v loader" where
  "setattrs [] self = Inr self"
| "setattrs (kv # rest) self =
     (case setattr (fst kv) (snd kv) self of
        Inl e \<Rightarrow> Inl e
      | Inr self1 \<Rightarrow> setattrs rest self1)"

definition Loader :: "string list \<Rightarrow> (string \<times> 'v) list \<Rightarrow> exn + 'v loader" where
  "Loader directories kwargs =
     (if ''self'' \<in> set (map fst kwargs) then Inl TypeError
      else case setattrs kwargs Map.empty of
             Inl e \<Rightarrow> Inl e
           | Inr self \<Rightarrow> Inr (self(''directories'' \<mapsto> Dirs directories)))"

definition directories :: "'v loader \<Rightarrow> string list" where
  "directories self = (case self ''directories'' of Some (Dirs ds) \<Rightarrow> ds | _ \<Rightarrow> [])"



text \<open>A Python set is a list without duplicates; \<open>set_add\<close> is \<open>set.add\<close>.\<close>

definition set_add :: "'a \<Rightarrow> 'a list \<Rightarrow> 'a list" where
  "set_add x xs = (if x \<in> set xs then xs else xs @ [x])"

definition query_names :: "string list \<Rightarrow> string list" where
  "query_names names =
     fold (\<lambda>n set_names.
             if snd (splitext n) \<noteq> [] then set_add n set_names
             else set_add (n @ ''.*'') set_names) names []"

definition result_key :: "string list \<Rightarrow> string \<Rightarrow> string" where
  "result_key names n = (if n \<in> set names then n else take (length n - 2) n)"









section \<open>Frame conditions and invariants\<close>

text \<open>
  \<open>memo_step\<close> relates the states around code that only decodes and memoises;
  \<open>frame\<close> the states around code that may also rebuild or drop the caches;
  \<open>kept\<close> says that the bytes and the memoised natural size survive.
\<close>

definition memo_step :: "img \<Rightarrow> img \<Rightarrow> bool" where
  "memo_step s s' \<longleftrightarrow>
     bytes_img s' = bytes_img s \<and> name s' = name s \<and> path s' = path s \<and>
     under_theta s' = under_theta s \<and> under_width s' = under_width s \<and>
     under_height s' = under_height s \<and>
     under_surface s' = under_surface s \<and> under_pattern s' = under_pattern s \<and>
     finished s' = finished s \<and> next_id s \<le> next_id s' \<and>
     (\<forall>z. under_default_surface s = Some z \<longrightarrow> under_default_surface s' = Some z) \<and>
     (\<forall>z. under_default_size s = Some z \<longrightarrow> under_default_size s' = Some z)"

definition frame :: "img \<Rightarrow> img \<Rightarrow> bool" where
  "frame s s' \<longleftrightarrow>
     bytes_img s' = bytes_img s \<and> name s' = name s \<and> path s' = path s \<and>
     under_theta s' = under_theta s \<and> under_width s' = under_width s \<and>
     under_height s' = under_height s \<and> next_id s \<le> next_id s' \<and>
     (\<forall>z. under_default_surface s = Some z \<longrightarrow> under_default_surface s' = Some z) \<and>
     (\<forall>z. under_default_size s = Some z \<longrightarrow> under_default_size s' = Some z)"

definition kept :: "img \<Rightarrow> img \<Rightarrow> bool" where
  "kept s s' \<longleftrightarrow>
     bytes_img s' = bytes_img s \<and>
     (\<forall>z. under_default_surface s = Some z \<longrightarrow> under_default_surface s' = Some z) \<and>
     (\<forall>z. under_default_size s = Some z \<longrightarrow> under_default_size s' = Some z)"

definition sizes_ok :: "img \<Rightarrow> bool" where
  "sizes_ok s \<longleftrightarrow>
     (\<forall>w. under_width s = Some w \<longrightarrow> 1 \<le> w) \<and> (\<forall>h. under_height s = Some h \<longrightarrow> 1 \<le> h)"

definition caches_ok :: "img \<Rightarrow> bool" where
  "caches_ok s \<longleftrightarrow>
     (\<forall>sf. under_surface s = Some sf \<longrightarrow> sid sf < next_id s) \<and>
     (\<forall>pt. under_pattern s = Some pt \<longrightarrow> pid pt < next_id s \<and> current_pattern s pt)"

definition good :: "(img, 'a) prog \<Rightarrow> bool" where
  "good m \<longleftrightarrow>
     (\<forall>s r s'. m s = (r, s') \<longrightarrow>
        kept s s' \<and> next_id s \<le> next_id s' \<and>
        (sizes_ok s \<longrightarrow> sizes_ok s') \<and> (caches_ok s \<longrightarrow> caches_ok s'))"

text \<open>
  Where the memoised natural size comes from: the default surface is one the decoder
  returned for the bytes of the handle, and the size is the size of that surface.
\<close>

definition natural_ok :: "decoder \<Rightarrow> img \<Rightarrow> bool" where
  "natural_ok dec s \<longleftrightarrow>
     (\<forall>sf. under_default_surface s = Some sf \<longrightarrow>
        (\<exists>a fmt. dec (bytes_img s) a = Decoded (get_width sf) (get_height sf) fmt)) \<and>
     (\<forall>z. under_default_size s = Some z \<longrightarrow>
        (\<exists>sf. under_default_surface s = Some sf \<and> z = (get_width sf, get_height sf)))"

definition keeps_natural :: "decoder \<Rightarrow> (img, 'a) prog \<Rightarrow> bool" where
  "keeps_natural dec m \<longleftrightarrow> (\<forall>s r s'. natural_ok dec s \<longrightarrow> m s = (r, s') \<longrightarrow> natural_ok dec s')"

text \<open>A handle to run the operations on.\<close>

definition example_img :: img where
  "example_img = Img ''bytes'' ''icon'' ''icon.png''"


section \<open>Properties of the handle: auxiliary lemmas\<close>

lemmas img_defs = Img_def surface_def pattern_def width_def height_def theta_def thn_def ret_def
  raise_exn_def default_size_def default_surface_def get_cairo_surface_def
  decode_to_image_surface_def get_cairo_pattern_def reset_def hasattr_def finish_def
  del_surface_def del_pattern_def set_width_def set_height_def set_theta_def scale_def resize_def
  scale_lock_def scale_free_def truthy_def assign_size_def bindE_def py_mul_def py_truediv_def
  Let_def

subsection \<open>Floats\<close>

text \<open>An integer below \<open>2^53\<close> in absolute value is a float, far from overflow.\<close>

lemma py_round_of_int [simp]: "py_round (real_of_int m) = m"
  by (simp add: py_round_def)

lemma float_round_zero [simp]: "float_round 0 = 0"
  by (simp add: float_round_def)

lemma float_round_of_int:
  assumes nz: "m \<noteq> 0" and small: "\<bar>m\<bar> < 2 ^ 53"
  shows "float_round (real_of_int m) = real_of_int m"
proof -
  let ?a = "\<bar>real_of_int m\<bar>"
  have a1: "1 \<le> ?a" using nz by (simp flip: of_int_abs)
  have a2: "?a < 2 ^ 53"
  proof -
    from small have "real_of_int \<bar>m\<bar> < real_of_int (2 ^ 53)" by (simp only: of_int_less_iff)
    then show ?thesis by simp
  qed
  define e where "e = \<lfloor>log 2 ?a\<rfloor>"
  have e0: "0 \<le> e" unfolding e_def using a1 by simp
  have "log 2 ?a < 53 \<longleftrightarrow> ?a < 2 powr 53"
    by (rule log_less_iff) (use a1 in auto)
  moreover have "(2::real) powr 53 = 2 ^ 53"
    by (simp add: powr_numeral del: power_numeral)
  ultimately have "log 2 ?a < 53" using a2 by simp
  then have e52: "e \<le> 52" unfolding e_def by linarith
  define k where "k = nat (52 - e)"
  have ke: "real_of_int e - 52 = - real k" unfolding k_def using e52 by simp
  have ulp: "2 powr (real_of_int e - 52) = 1 / 2 ^ k"
    unfolding ke by (simp add: powr_minus powr_realpow divide_inverse)
  have mx: "max e (- 1022) = e" using e0 by simp
  have q: "real_of_int m / (1 / 2 ^ k) = real_of_int (m * 2 ^ k)" by simp
  have "float_round (real_of_int m) =
        real_of_int (py_round (real_of_int m / (1 / 2 ^ k))) * (1 / 2 ^ k)"
    using nz by (simp add: float_round_def Let_def e_def[symmetric] mx ulp del: of_int_abs)
  also have "\<dots> = real_of_int m"
    unfolding q py_round_of_int by simp
  finally show ?thesis .
qed

lemma below_overflow: "\<bar>x\<bar> < 2 ^ 53 \<Longrightarrow> \<not> overflow_threshold \<le> \<bar>x\<bar>"
proof -
  assume "\<bar>x\<bar> < 2 ^ 53"
  moreover have "(2::real) ^ 53 \<le> 2 ^ 1024" by (rule power_increasing) simp_all
  ultimately show ?thesis unfolding overflow_threshold_def by linarith
qed

lemma zero_below_overflow [simp]: "\<not> overflow_threshold \<le> 0"
  using below_overflow[of 0] by simp

lemma float_round_numeral [simp]:
  "(numeral n :: int) < 2 ^ 53 \<Longrightarrow> float_round (numeral n) = numeral n"
  using float_round_of_int[of "numeral n"] by simp

lemma numeral_below_overflow [simp]:
  assumes "(numeral n :: int) < 2 ^ 53"
  shows "\<not> overflow_threshold \<le> numeral n"
proof -
  from assms have "real_of_int (numeral n) < real_of_int (2 ^ 53)" by (simp only: of_int_less_iff)
  then have "\<bar>numeral n :: real\<bar> < 2 ^ 53" by simp
  from below_overflow[OF this] show ?thesis by simp
qed

lemma fl_numeral [simp]:
  "(numeral n :: int) < 2 ^ 53 \<Longrightarrow> fl (numeral n) = PyFloat (numeral n)"
  by (simp add: fl_def)

lemma fl_zero [simp]: "fl 0 = PyFloat 0"
  by (simp add: fl_def)

lemma to_float_numeral [simp]:
  "(numeral n :: int) < 2 ^ 53 \<Longrightarrow> to_float (PyInt (numeral n)) = Inr (PyFloat (numeral n))"
  by (simp add: to_float_def)

lemma to_float_zero [simp]: "to_float (PyInt 0) = Inr (PyFloat 0)"
  by (simp add: to_float_def)

lemma to_float_float [simp]: "to_float (PyFloat x) = Inr (PyFloat x)"
  by (simp add: to_float_def)

subsection \<open>Frames\<close>

lemma memo_step_refl: "memo_step s s" by (simp add: memo_step_def)

lemma memo_step_trans: "memo_step s s1 \<Longrightarrow> memo_step s1 s2 \<Longrightarrow> memo_step s s2"
  by (simp add: memo_step_def)

lemma frame_refl: "frame s s" by (simp add: frame_def)

lemma frame_trans: "frame s s1 \<Longrightarrow> frame s1 s2 \<Longrightarrow> frame s s2"
  by (simp add: frame_def)

lemma memo_step_frame: "memo_step s s' \<Longrightarrow> frame s s'"
  by (simp add: memo_step_def frame_def)

lemma thn_cases:
  assumes "thn m f s = (r, s')"
  obtains (fail) e where "m s = (Inl e, s')" "r = Inl e"
        | (ok) v s1 where "m s = (Inr v, s1)" "f v s1 = (r, s')"
  using assms by (auto simp: thn_def split: prod.splits sum.splits)

lemma gcs_memo_step:
  "get_cairo_surface dec b w h s = (r, s') \<Longrightarrow> memo_step s s'"
  by (auto simp: get_cairo_surface_def decode_to_image_surface_def memo_step_def Let_def
      split: decoded.splits exn.splits prod.splits sum.splits)

lemma gcs_fresh:
  "get_cairo_surface dec b w h s = (Inr (sf, fmt), s') \<Longrightarrow> next_id s \<le> sid sf \<and> sid sf < next_id s'"
  by (auto simp: get_cairo_surface_def decode_to_image_surface_def  Let_def
      split: decoded.splits exn.splits prod.splits sum.splits)

lemma default_surface_memo_step:
  "default_surface dec s = (r, s') \<Longrightarrow> memo_step s s'"
  by (auto simp: default_surface_def memo_step_def dest!: gcs_memo_step
      split: option.splits prod.splits sum.splits)

lemma default_size_memo_step:
  "default_size dec s = (r, s') \<Longrightarrow> memo_step s s'"
  by (auto simp: default_size_def memo_step_def Let_def dest!: default_surface_memo_step
      split: option.splits prod.splits sum.splits)

lemma width_memo_step: "width dec s = (r, s') \<Longrightarrow> memo_step s s'"
  by (auto simp: width_def thn_def ret_def memo_step_refl dest: default_size_memo_step
      split: option.splits prod.splits sum.splits)

lemma height_memo_step: "height dec s = (r, s') \<Longrightarrow> memo_step s s'"
  by (auto simp: height_def thn_def ret_def memo_step_refl dest: default_size_memo_step
      split: option.splits prod.splits sum.splits)

lemma theta_same: "theta s = (r, s') \<Longrightarrow> s' = s \<and> r = Inr (cur_theta s)"
  by (auto simp: theta_def cur_theta_def split: option.splits)

lemma default_size_result:
  "default_size dec s = (Inr z, s') \<Longrightarrow> under_default_size s' = Some z"
  by (auto simp: default_size_def Let_def split: option.splits prod.splits sum.splits)

lemma default_size_memo:
  "under_default_size s = Some z \<Longrightarrow> default_size dec s = (Inr z, s)"
  by (simp add: default_size_def)

lemma width_result: "width dec s = (Inr w, s') \<Longrightarrow> cur_width s' = Some w"
  apply (cases "under_width s")
   apply (auto simp: width_def cur_width_def thn_def ret_def
      split: prod.splits sum.splits dest: default_size_result)
  apply (frule default_size_memo_step)
  apply (auto simp: memo_step_def dest: default_size_result)
  done

lemma height_result: "height dec s = (Inr h, s') \<Longrightarrow> cur_height s' = Some h"
  apply (cases "under_height s")
   apply (auto simp: height_def cur_height_def thn_def ret_def
      split: prod.splits sum.splits dest: default_size_result)
  apply (frule default_size_memo_step)
  apply (auto simp: memo_step_def dest: default_size_result)
  done

lemma width_known: "cur_width s = Some w \<Longrightarrow> width dec s = (Inr w, s)"
  by (auto simp: width_def cur_width_def thn_def ret_def default_size_def split: option.splits)

lemma height_known: "cur_height s = Some h \<Longrightarrow> height dec s = (Inr h, s)"
  by (auto simp: height_def cur_height_def thn_def ret_def default_size_def split: option.splits)

lemma frame_cur_width: "frame s s' \<Longrightarrow> cur_width s = Some w \<Longrightarrow> cur_width s' = Some w"
  by (auto simp: frame_def cur_width_def split: option.splits)

lemma frame_cur_height: "frame s s' \<Longrightarrow> cur_height s = Some h \<Longrightarrow> cur_height s' = Some h"
  by (auto simp: frame_def cur_height_def split: option.splits)

lemma frame_cur_theta: "frame s s' \<Longrightarrow> cur_theta s' = cur_theta s"
  by (auto simp: frame_def cur_theta_def)

lemma cur_width_upd [simp]:
  "cur_width (s\<lparr>next_id := n\<rparr>) = cur_width s"
  "cur_width (s\<lparr>under_pattern := p\<rparr>) = cur_width s"
  "cur_width (s\<lparr>under_surface := f\<rparr>) = cur_width s"
  "cur_width (s\<lparr>finished := l\<rparr>) = cur_width s"
  "cur_width (s\<lparr>under_theta := t\<rparr>) = cur_width s"
  "cur_width (s\<lparr>under_height := h\<rparr>) = cur_width s"
  by (simp_all add: cur_width_def split: option.splits)

lemma cur_height_upd [simp]:
  "cur_height (s\<lparr>next_id := n\<rparr>) = cur_height s"
  "cur_height (s\<lparr>under_pattern := p\<rparr>) = cur_height s"
  "cur_height (s\<lparr>under_surface := f\<rparr>) = cur_height s"
  "cur_height (s\<lparr>finished := l\<rparr>) = cur_height s"
  "cur_height (s\<lparr>under_theta := t\<rparr>) = cur_height s"
  "cur_height (s\<lparr>under_width := w\<rparr>) = cur_height s"
  by (simp_all add: cur_height_def split: option.splits)

lemma cur_theta_upd [simp]:
  "cur_theta (s\<lparr>next_id := n\<rparr>) = cur_theta s"
  "cur_theta (s\<lparr>under_pattern := p\<rparr>) = cur_theta s"
  "cur_theta (s\<lparr>under_surface := f\<rparr>) = cur_theta s"
  "cur_theta (s\<lparr>finished := l\<rparr>) = cur_theta s"
  "cur_theta (s\<lparr>under_width := w\<rparr>) = cur_theta s"
  "cur_theta (s\<lparr>under_height := h\<rparr>) = cur_theta s"
  by (simp_all add: cur_theta_def split: option.splits)

lemma surface_cached: "under_surface s = Some sf \<Longrightarrow> surface dec s = (Inr sf, s)"
  by (simp add: surface_def)

lemma surface_build:
  assumes "under_surface s = None" "surface dec s = (r, s')"
  shows "frame s s' \<and> under_pattern s' = under_pattern s \<and> finished s' = finished s \<and>
         (case r of Inl e \<Rightarrow> under_surface s' = None
          | Inr sf \<Rightarrow> under_surface s' = Some sf \<and> next_id s \<le> sid sf \<and> sid sf < next_id s')"
proof -
  from assms have run: "thn (width dec) (\<lambda>w.
         thn (height dec) (\<lambda>h.
         thn (\<lambda>s1. get_cairo_surface dec (bytes_img s1) (Some w) (Some h) s1) (\<lambda>r s2.
           (Inr (fst r), s2\<lparr>under_surface := Some (fst r)\<rparr>)))) s = (r, s')"
    by (simp add: surface_def)
  from run show ?thesis
  proof (cases rule: thn_cases)
    case (fail e)
    from width_memo_step[OF fail(1)] assms(1) fail(2) show ?thesis
      by (auto simp: memo_step_def frame_def)
  next
    case (ok w s1)
    note st1 = width_memo_step[OF ok(1)]
    from ok(2) show ?thesis
    proof (cases rule: thn_cases)
      case (fail e)
      from height_memo_step[OF fail(1)] st1 assms(1) fail(2) show ?thesis
        by (auto simp: memo_step_def frame_def)
    next
      case (ok h s2)
      note st2 = height_memo_step[OF ok(1)]
      from ok(2) show ?thesis
      proof (cases rule: thn_cases)
        case (fail e)
        from gcs_memo_step[OF fail(1)] st1 st2 assms(1) fail(2) show ?thesis
          by (auto simp: memo_step_def frame_def)
      next
        case (ok v s3)
        obtain sf fmt where v: "v = (sf, fmt)" by (cases v)
        from gcs_memo_step[OF ok(1)] gcs_fresh[OF ok(1)[unfolded v]] st1 st2 assms(1) ok(2) v
        show ?thesis
          by (auto simp: memo_step_def frame_def)
      qed
    qed
  qed
qed

lemma surface_frame: "surface dec s = (r, s') \<Longrightarrow> frame s s'"
  by (cases "under_surface s") (auto simp: surface_cached frame_refl dest: surface_build)

lemma surface_ids:
  assumes "\<forall>sf. under_surface s = Some sf \<longrightarrow> sid sf < next_id s" "surface dec s = (r, s')"
  shows "(\<forall>sf. under_surface s' = Some sf \<longrightarrow> sid sf < next_id s') \<and>
         (\<forall>sf. r = Inr sf \<longrightarrow> under_surface s' = Some sf) \<and>
         (\<forall>sf. under_surface s = Some sf \<longrightarrow> under_surface s' = Some sf) \<and>
         (under_surface s = None \<longrightarrow> (\<forall>sf. under_surface s' = Some sf \<longrightarrow> next_id s \<le> sid sf)) \<and>
         under_pattern s' = under_pattern s \<and> finished s' = finished s"
proof (cases "under_surface s")
  case None
  from surface_build[OF None assms(2)] show ?thesis using None
    by (auto split: sum.splits)
next
  case (Some sf)
  with assms show ?thesis by (auto simp: surface_cached)
qed

lemma get_cairo_pattern_result:
  "get_cairo_pattern surf w h t s = (r, s') \<Longrightarrow>
     s' = s\<lparr>next_id := Suc (next_id s)\<rparr> \<and>
     (\<forall>pt. r = Inr pt \<longrightarrow> pid pt = next_id s \<and> pat_surface pt = surf \<and>
        pattern_matrix surf w h t = Inr (pat_matrix pt))"
  by (auto simp: get_cairo_pattern_def split: sum.splits)

lemma pattern_cached: "under_pattern s = Some pt \<Longrightarrow> pattern dec s = (Inr pt, s)"
  by (simp add: pattern_def)

lemma pattern_build:
  assumes none: "under_pattern s = None"
    and ids: "\<forall>sf. under_surface s = Some sf \<longrightarrow> sid sf < next_id s"
    and run: "pattern dec s = (r, s')"
  shows "frame s s' \<and> finished s' = finished s \<and>
         (\<forall>sf. under_surface s' = Some sf \<longrightarrow> sid sf < next_id s') \<and>
         (\<forall>sf. under_surface s = Some sf \<longrightarrow> under_surface s' = Some sf) \<and>
         (under_surface s = None \<longrightarrow> (\<forall>sf. under_surface s' = Some sf \<longrightarrow> next_id s \<le> sid sf)) \<and>
         (case r of Inl e \<Rightarrow> under_pattern s' = None
          | Inr pt \<Rightarrow> under_pattern s' = Some pt \<and> next_id s \<le> pid pt \<and> pid pt < next_id s' \<and>
              current_pattern s' pt)"
proof -
  from none run have run1: "thn (surface dec) (\<lambda>surf.
         thn (width dec) (\<lambda>w.
         thn (height dec) (\<lambda>h.
         thn theta (\<lambda>t.
         thn (get_cairo_pattern surf (Some (real_of_int w)) (Some (real_of_int h)) t) (\<lambda>pat s2.
           (Inr pat, s2\<lparr>under_pattern := Some pat\<rparr>)))))) s = (r, s')"
    by (simp add: pattern_def)
  from run1 show ?thesis
  proof (cases rule: thn_cases)
    case (fail e)
    from surface_frame[OF fail(1)] surface_ids[OF ids fail(1)] none fail(2) show ?thesis
      by auto
  next
    case (ok surf s1)
    note f1 = surface_frame[OF ok(1)] and i1 = surface_ids[OF ids ok(1)]
    from ok(2) show ?thesis
    proof (cases rule: thn_cases)
      case (fail e)
      from width_memo_step[OF fail(1)] f1 i1 none fail(2) show ?thesis
        by (auto simp: memo_step_def frame_def)
    next
      case (ok w s2)
      note m2 = width_memo_step[OF ok(1)] and w2 = width_result[OF ok(1)]
      from ok(2) show ?thesis
      proof (cases rule: thn_cases)
        case (fail e)
        from height_memo_step[OF fail(1)] m2 f1 i1 none fail(2) show ?thesis
          by (auto simp: memo_step_def frame_def)
      next
        case (ok h s3)
        note m3 = height_memo_step[OF ok(1)] and h3 = height_result[OF ok(1)]
        have w3: "cur_width s3 = Some w"
          using frame_cur_width[OF memo_step_frame[OF m3] w2] .
        from ok(2) show ?thesis
        proof (cases rule: thn_cases)
          case (fail e)
          with theta_same[OF fail(1)] show ?thesis by simp
        next
          case (ok t s4)
          from theta_same[OF ok(1)] have s4: "s4 = s3" and t: "t = cur_theta s3" by auto
          from ok(2) show ?thesis
          proof (cases rule: thn_cases)
            case (fail e)
            from get_cairo_pattern_result[OF fail(1)] s4 m3 m2 f1 i1 none fail(2) show ?thesis
              by (auto simp: memo_step_def frame_def)
          next
            case (ok pt s5)
            from get_cairo_pattern_result[OF ok(1)]
            have s5: "s5 = s4\<lparr>next_id := Suc (next_id s4)\<rparr>"
              and pt: "pid pt = next_id s4" "pat_surface pt = surf"
                "pattern_matrix surf (Some (real_of_int w)) (Some (real_of_int h)) t = Inr (pat_matrix pt)"
              by auto
            from ok(2) have r: "r = Inr pt" and s': "s' = s5\<lparr>under_pattern := Some pt\<rparr>"
              by auto
            have surf3: "under_surface s3 = Some surf"
              using i1 m2 m3 by (auto simp: memo_step_def)
            have cur: "current_pattern s' pt"
              using w3 h3 pt t surf3
              by (simp add: current_pattern_def s' s5 s4)
            from s' s5 s4 m3 m2 f1 i1 none r pt cur show ?thesis
              by (auto simp: memo_step_def frame_def)
          qed
        qed
      qed
    qed
  qed
qed

lemma hasattr_cases:
  assumes "hasattr g s = (r, s')"
  obtains (yes) v where "g s = (Inr v, s')" "r = Inr True"
        | (no) "g s = (Inl AttributeError, s')" "r = Inr False"
        | (raises) e where "g s = (Inl e, s')" "r = Inl e"
  using assms by (auto simp: hasattr_def split: prod.splits sum.splits exn.splits)

lemma reset_surface_phase:
  assumes ids: "\<forall>sf. under_surface s = Some sf \<longrightarrow> sid sf < next_id s"
    and run: "thn (hasattr (surface dec)) (\<lambda>b.
            if b then thn (surface dec) (\<lambda>surf. thn (finish surf) (\<lambda>u. del_surface))
            else ret ()) s = (r, s1)"
  shows "frame s s1 \<and> under_pattern s1 = under_pattern s \<and> under_surface s1 = None \<and>
         (\<forall>sf. under_surface s = Some sf \<longrightarrow> sid sf \<in> set (finished s1)) \<and>
         (\<forall>e. r = Inl e \<longrightarrow> under_surface s = None)"
  using run
proof (cases rule: thn_cases)
  case (fail e)
  from fail(1) show ?thesis
  proof (cases rule: hasattr_cases)
    case (yes v) then show ?thesis by simp
  next
    case no then show ?thesis by simp
  next
    case (raises e')
    from surface_frame[OF raises(1)] surface_ids[OF ids raises(1)] raises fail(2) show ?thesis
      by (cases "under_surface s") (auto simp: surface_cached dest: surface_build)
  qed
next
  case (ok b s0)
  from ok(1) show ?thesis
  proof (cases rule: hasattr_cases)
    case (yes v)
    note f0 = surface_frame[OF yes(1)] and i0 = surface_ids[OF ids yes(1)]
    from i0 have c0: "under_surface s0 = Some v" by simp
    from ok(2) yes(2) c0 have "r = Inr ()" and
      s1: "s1 = s0\<lparr>finished := finished s0 @ [sid v], under_surface := None\<rparr>"
      by (auto simp: thn_def surface_cached finish_def del_surface_def)
    with f0 i0 c0 show ?thesis
      by (auto simp: frame_def)
  next
    case no
    from surface_frame[OF no(1)] surface_ids[OF ids no(1)] no(1) no(2) ok(2) show ?thesis
      by (cases "under_surface s") (auto simp: ret_def surface_cached dest: surface_build[OF _ no(1)])
  next
    case (raises e) then show ?thesis by simp
  qed
qed

lemma reset_pattern_phase:
  assumes none: "under_surface s1 = None"
    and run: "thn (hasattr (pattern dec)) (\<lambda>b. if b then del_pattern else ret ()) s1 = (r, s')"
  shows "frame s1 s' \<and> finished s' = finished s1 \<and>
         (\<forall>sf. under_surface s' = Some sf \<longrightarrow> next_id s1 \<le> sid sf \<and> sid sf < next_id s') \<and>
         under_pattern s' = None"
proof (cases "under_pattern s1")
  case (Some pt)
  with run none show ?thesis
    by (auto simp: thn_def hasattr_def pattern_cached del_pattern_def frame_def)
next
  case None
  have ids: "\<forall>sf. under_surface s1 = Some sf \<longrightarrow> sid sf < next_id s1"
    using none by simp
  from run show ?thesis
  proof (cases rule: thn_cases)
    case (fail e)
    from fail(1) show ?thesis
    proof (cases rule: hasattr_cases)
      case (yes v) then show ?thesis by simp
    next
      case no then show ?thesis by simp
    next
      case (raises e')
      from pattern_build[OF None ids raises(1)] none show ?thesis by auto
    qed
  next
    case (ok b s0)
    from ok(1) show ?thesis
    proof (cases rule: hasattr_cases)
      case (yes v)
      from pattern_build[OF None ids yes(1)] none ok(2) yes(2) show ?thesis
        by (auto simp: del_pattern_def frame_def)
    next
      case no
      from pattern_build[OF None ids no(1)] none ok(2) no(2) show ?thesis
        by (auto simp: ret_def)
    next
      case (raises e) then show ?thesis by simp
    qed
  qed
qed

lemma reset_result:
  assumes ids: "\<forall>sf. under_surface s = Some sf \<longrightarrow> sid sf < next_id s"
    and J: "under_pattern s \<noteq> None \<longrightarrow> under_surface s \<noteq> None"
    and run: "reset dec s = (r, s')"
  shows "frame s s' \<and> under_pattern s' = None \<and>
         (\<forall>sf. under_surface s' = Some sf \<longrightarrow> next_id s \<le> sid sf \<and> sid sf < next_id s') \<and>
         (\<forall>sf. under_surface s = Some sf \<longrightarrow> sid sf \<in> set (finished s'))"
  using run unfolding reset_def
proof (cases rule: thn_cases)
  case (fail e)
  from reset_surface_phase[OF ids fail(1)] J fail(2) show ?thesis by auto
next
  case (ok u s1)
  note p1 = reset_surface_phase[OF ids ok(1)]
  from p1 have none: "under_surface s1 = None" by simp
  note p2 = reset_pattern_phase[OF none ok(2)]
  have "frame s s'" using p1 p2 frame_trans by blast
  moreover have "next_id s \<le> next_id s1" using p1 by (simp add: frame_def)
  ultimately show ?thesis using p1 p2 by auto
qed

lemma thn_frame:
  assumes "\<And>r s'. m s = (r, s') \<Longrightarrow> frame s s'"
    and "\<And>v s1 r s'. f v s1 = (r, s') \<Longrightarrow> frame s1 s'"
    and "thn m f s = (r, s')"
  shows "frame s s'"
  using assms(3)
proof (cases rule: thn_cases)
  case (fail e) then show ?thesis using assms(1) by simp
next
  case (ok v s1) then show ?thesis using assms(1,2) frame_trans by blast
qed

lemma gcp_frame: "get_cairo_pattern surf w h t s = (r, s') \<Longrightarrow> frame s s'"
  by (auto simp: frame_def dest!: get_cairo_pattern_result)

lemma pattern_frame: "pattern dec s = (r, s') \<Longrightarrow> frame s s'"
proof (cases "under_pattern s")
  case (Some pt)
  assume "pattern dec s = (r, s')"
  with Some show ?thesis by (simp add: pattern_cached frame_refl)
next
  case None
  assume "pattern dec s = (r, s')"
  with None have run1: "thn (surface dec) (\<lambda>surf.
         thn (width dec) (\<lambda>w.
         thn (height dec) (\<lambda>h.
         thn theta (\<lambda>t.
         thn (get_cairo_pattern surf (Some (real_of_int w)) (Some (real_of_int h)) t) (\<lambda>pat s2.
           (Inr pat, s2\<lparr>under_pattern := Some pat\<rparr>)))))) s = (r, s')"
    by (simp add: pattern_def)
  show ?thesis
    apply (rule thn_frame[OF _ _ run1])
     apply (erule surface_frame)
    apply (erule thn_frame[rotated 2])
     apply (erule width_memo_step[THEN memo_step_frame])
    apply (erule thn_frame[rotated 2])
     apply (erule height_memo_step[THEN memo_step_frame])
    apply (erule thn_frame[rotated 2])
     apply (drule theta_same, simp add: frame_refl)
    apply (erule thn_frame[rotated 2])
     apply (erule gcp_frame)
    apply (auto simp: frame_def)
    done
qed

lemma hasattr_frame:
  assumes "\<And>r s'. g s = (r, s') \<Longrightarrow> frame s s'" "hasattr g s = (r, s')"
  shows "frame s s'"
  using assms(2) by (cases rule: hasattr_cases) (auto intro: assms(1))

lemma reset_frame: "reset dec s = (r, s') \<Longrightarrow> frame s s'"
  unfolding reset_def
  apply (erule thn_frame[rotated 2])
   apply (erule thn_frame[rotated 2])
    apply (erule hasattr_frame[rotated], erule surface_frame)
   apply (auto simp: ret_def frame_refl split: if_splits)[1]
   apply (erule thn_frame[rotated 2])
    apply (erule surface_frame)
   apply (auto simp: thn_def finish_def del_surface_def frame_def)[1]
  apply (erule thn_frame[rotated 2])
   apply (erule hasattr_frame[rotated], erule pattern_frame)
  apply (auto simp: ret_def del_pattern_def frame_def split: if_splits)
  done

lemma goodI:
  assumes "\<And>s r s'. m s = (r, s') \<Longrightarrow> kept s s' \<and> next_id s \<le> next_id s'"
    and "\<And>s r s'. m s = (r, s') \<Longrightarrow> sizes_ok s \<Longrightarrow> sizes_ok s'"
    and "\<And>s r s'. m s = (r, s') \<Longrightarrow> caches_ok s \<Longrightarrow> caches_ok s'"
  shows "good m"
  unfolding good_def using assms by blast

lemma kept_trans: "kept s s1 \<Longrightarrow> kept s1 s2 \<Longrightarrow> kept s s2"
  by (simp add: kept_def)

lemma frame_kept: "frame s s' \<Longrightarrow> kept s s'"
  by (simp add: frame_def kept_def)

lemma frame_sizes_ok: "frame s s' \<Longrightarrow> sizes_ok s \<Longrightarrow> sizes_ok s'"
  by (simp add: frame_def sizes_ok_def)

lemma thn_good:
  assumes "good m" "\<And>v. good (f v)"
  shows "good (thn m f)"
  unfolding good_def
proof (intro allI impI)
  fix s r s' assume run: "thn m f s = (r, s')"
  from run show "kept s s' \<and> next_id s \<le> next_id s' \<and>
        (sizes_ok s \<longrightarrow> sizes_ok s') \<and> (caches_ok s \<longrightarrow> caches_ok s')"
  proof (cases rule: thn_cases)
    case (fail e)
    with assms(1) show ?thesis unfolding good_def by blast
  next
    case (ok v s1)
    from assms(1) ok(1) have a: "kept s s1" "next_id s \<le> next_id s1"
      "sizes_ok s \<longrightarrow> sizes_ok s1" "caches_ok s \<longrightarrow> caches_ok s1"
      unfolding good_def by blast+
    from assms(2)[of v] ok(2) have b: "kept s1 s'" "next_id s1 \<le> next_id s'"
      "sizes_ok s1 \<longrightarrow> sizes_ok s'" "caches_ok s1 \<longrightarrow> caches_ok s'"
      unfolding good_def by blast+
    from a b show ?thesis using kept_trans by (auto intro: kept_trans)
  qed
qed

lemma frame_current:
  assumes f: "frame s s'" and surf: "under_surface s' = under_surface s"
    and cp: "current_pattern s pt"
  shows "current_pattern s' pt"
proof -
  from cp obtain w h where w: "cur_width s = Some w" and h: "cur_height s = Some h"
    and rest: "under_surface s = Some (pat_surface pt)"
      "pattern_matrix (pat_surface pt) (Some (real_of_int w)) (Some (real_of_int h))
         (cur_theta s) = Inr (pat_matrix pt)"
    by (auto simp: current_pattern_def split: option.splits)
  have "cur_width s' = Some w" "cur_height s' = Some h" "cur_theta s' = cur_theta s"
    using frame_cur_width[OF f w] frame_cur_height[OF f h] frame_cur_theta[OF f] by auto
  with rest surf show ?thesis by (simp add: current_pattern_def)
qed

lemma memo_step_caches_ok:
  assumes ms: "memo_step s s'" and c: "caches_ok s"
  shows "caches_ok s'"
proof -
  have eq: "under_surface s' = under_surface s" "under_pattern s' = under_pattern s"
    "next_id s \<le> next_id s'"
    using ms by (simp_all add: memo_step_def)
  have "sid sf < next_id s'" if "under_surface s' = Some sf" for sf
    using that c eq by (auto simp: caches_ok_def)
  moreover have "pid pt < next_id s' \<and> current_pattern s' pt" if "under_pattern s' = Some pt" for pt
    using that c eq frame_current[OF memo_step_frame[OF ms] eq(1)]
    by (auto simp: caches_ok_def)
  ultimately show ?thesis by (simp add: caches_ok_def)
qed

lemma memo_step_good:
  assumes "\<And>s r s'. m s = (r, s') \<Longrightarrow> memo_step s s'"
  shows "good m"
proof (rule goodI)
  fix s r s' assume "m s = (r, s')"
  then have ms: "memo_step s s'" by (rule assms)
  show "kept s s' \<and> next_id s \<le> next_id s'"
    using ms by (simp add: memo_step_def kept_def)
  show "sizes_ok s \<Longrightarrow> sizes_ok s'"
    using ms by (simp add: memo_step_def sizes_ok_def)
  show "caches_ok s \<Longrightarrow> caches_ok s'"
    using ms by (rule memo_step_caches_ok)
qed

lemma default_surface_good: "good (default_surface dec)"
  by (rule memo_step_good) (rule default_surface_memo_step)

lemma default_size_good: "good (default_size dec)"
  by (rule memo_step_good) (rule default_size_memo_step)

lemma width_good: "good (width dec)"
  by (rule memo_step_good) (rule width_memo_step)

lemma height_good: "good (height dec)"
  by (rule memo_step_good) (rule height_memo_step)

lemma theta_good: "good theta"
  by (rule memo_step_good) (auto dest: theta_same simp: memo_step_refl)

lemma caches_ok_J: "caches_ok s \<Longrightarrow> under_pattern s \<noteq> None \<longrightarrow> under_surface s \<noteq> None"
  by (auto simp: caches_ok_def current_pattern_def split: option.splits)

lemma surface_good: "good (surface dec)"
proof (rule goodI)
  fix s r s' assume run: "surface dec s = (r, s')"
  note f = surface_frame[OF run]
  show "kept s s' \<and> next_id s \<le> next_id s'"
    using f by (simp add: frame_kept) (simp add: frame_def)
  show "sizes_ok s \<Longrightarrow> sizes_ok s'" using f by (rule frame_sizes_ok)
  assume c: "caches_ok s"
  show "caches_ok s'"
  proof (cases "under_surface s")
    case (Some sf)
    with run c show ?thesis by (simp add: surface_cached)
  next
    case None
    with caches_ok_J[OF c] have "under_pattern s = None" by auto
    with surface_build[OF None run] show ?thesis
      by (auto simp: caches_ok_def split: sum.splits)
  qed
qed

lemma pattern_good: "good (pattern dec)"
proof (rule goodI)
  fix s r s' assume run: "pattern dec s = (r, s')"
  note f = pattern_frame[OF run]
  show "kept s s' \<and> next_id s \<le> next_id s'"
    using f by (simp add: frame_kept) (simp add: frame_def)
  show "sizes_ok s \<Longrightarrow> sizes_ok s'" using f by (rule frame_sizes_ok)
  assume c: "caches_ok s"
  show "caches_ok s'"
  proof (cases "under_pattern s")
    case (Some pt)
    with run c show ?thesis by (simp add: pattern_cached)
  next
    case None
    from c have ids: "\<forall>sf. under_surface s = Some sf \<longrightarrow> sid sf < next_id s"
      by (simp add: caches_ok_def)
    from pattern_build[OF None ids run] show ?thesis
      by (auto simp: caches_ok_def split: sum.splits)
  qed
qed

lemma del_pattern_good: "good del_pattern"
  by (rule goodI) (auto simp: del_pattern_def kept_def sizes_ok_def caches_ok_def)

lemma reset_after_write:
  assumes run: "reset dec s0 = (r, s')"
    and attrs: "bytes_img s0 = bytes_img s" "under_default_surface s0 = under_default_surface s"
      "under_default_size s0 = under_default_size s" "next_id s0 = next_id s"
      "under_surface s0 = under_surface s" "under_pattern s0 = under_pattern s"
  shows "kept s s' \<and> next_id s \<le> next_id s'"
    and "caches_ok s \<Longrightarrow> caches_ok s' \<and> under_pattern s' = None \<and>
           (\<forall>sf. under_surface s' = Some sf \<longrightarrow> next_id s \<le> sid sf) \<and>
           (\<forall>sf. under_surface s = Some sf \<longrightarrow> sid sf \<in> set (finished s'))"
proof -
  from reset_frame[OF run] attrs show "kept s s' \<and> next_id s \<le> next_id s'"
    by (simp add: frame_def kept_def)
  assume c: "caches_ok s"
  have ids: "\<forall>sf. under_surface s0 = Some sf \<longrightarrow> sid sf < next_id s0"
    using c attrs by (simp add: caches_ok_def)
  have J: "under_pattern s0 \<noteq> None \<longrightarrow> under_surface s0 \<noteq> None"
    using caches_ok_J[OF c] attrs by simp
  from reset_result[OF ids J run] attrs
  show "caches_ok s' \<and> under_pattern s' = None \<and>
           (\<forall>sf. under_surface s' = Some sf \<longrightarrow> next_id s \<le> sid sf) \<and>
           (\<forall>sf. under_surface s = Some sf \<longrightarrow> sid sf \<in> set (finished s'))"
    by (simp add: caches_ok_def)
qed

lemma set_width_stored:
  "set_width dec v s = (r, s') \<Longrightarrow>
     under_width s' = Some (max (py_round v) 1) \<and> under_height s' = under_height s \<and>
     under_theta s' = under_theta s"
  by (auto simp: set_width_def Let_def frame_def dest!: reset_frame)

lemma set_height_stored:
  "set_height dec v s = (r, s') \<Longrightarrow>
     under_height s' = Some (max (py_round v) 1) \<and> under_width s' = under_width s \<and>
     under_theta s' = under_theta s"
  by (auto simp: set_height_def Let_def frame_def dest!: reset_frame)

lemma set_theta_stored:
  "set_theta dec v s = (r, s') \<Longrightarrow>
     under_theta s' = Some v \<and> under_width s' = under_width s \<and>
     under_height s' = under_height s"
  by (auto simp: set_theta_def frame_def dest!: reset_frame)

lemma set_width_good: "good (set_width dec v)"
proof (rule goodI)
  fix s r s' assume run: "set_width dec v s = (r, s')"
  then have rs: "reset dec (s\<lparr>under_width := Some (max (py_round v) 1)\<rparr>) = (r, s')"
    by (simp add: set_width_def Let_def)
  from reset_after_write(1)[OF rs, of s] show "kept s s' \<and> next_id s \<le> next_id s'" by simp
  from set_width_stored[OF run] show "sizes_ok s \<Longrightarrow> sizes_ok s'"
    by (simp add: sizes_ok_def)
  from reset_after_write(2)[OF rs, of s] show "caches_ok s \<Longrightarrow> caches_ok s'" by simp
qed

lemma set_height_good: "good (set_height dec v)"
proof (rule goodI)
  fix s r s' assume run: "set_height dec v s = (r, s')"
  then have rs: "reset dec (s\<lparr>under_height := Some (max (py_round v) 1)\<rparr>) = (r, s')"
    by (simp add: set_height_def Let_def)
  from reset_after_write(1)[OF rs, of s] show "kept s s' \<and> next_id s \<le> next_id s'" by simp
  from set_height_stored[OF run] show "sizes_ok s \<Longrightarrow> sizes_ok s'"
    by (simp add: sizes_ok_def)
  from reset_after_write(2)[OF rs, of s] show "caches_ok s \<Longrightarrow> caches_ok s'" by simp
qed

lemma set_theta_good: "good (set_theta dec v)"
proof (rule goodI)
  fix s r s' assume run: "set_theta dec v s = (r, s')"
  then have rs: "reset dec (s\<lparr>under_theta := Some v\<rparr>) = (r, s')"
    by (simp add: set_theta_def)
  from reset_after_write(1)[OF rs, of s] show "kept s s' \<and> next_id s \<le> next_id s'" by simp
  from set_theta_stored[OF run] show "sizes_ok s \<Longrightarrow> sizes_ok s'"
    by (simp add: sizes_ok_def)
  from reset_after_write(2)[OF rs, of s] show "caches_ok s \<Longrightarrow> caches_ok s'" by simp
qed

lemma pure_good: "good (\<lambda>s. (x, s))"
  by (rule goodI) (auto simp: kept_def)

lemma pure_if_good: "good (\<lambda>s. if c then (x, s) else (y, s))"
  by (cases c) (simp_all add: pure_good)

lemma raise_good: "good (raise_exn e)"
  unfolding raise_exn_def by (rule pure_good)

lemma assign_size_good:
  "good (assign_size (set_width dec) v)" "good (assign_size (set_height dec) v)"
  by (cases v; simp add: assign_size_def set_width_good set_height_good raise_good)+

lemma del_attr_keeps:
  "del_width s = (r, s') \<Longrightarrow> kept s s' \<and> next_id s \<le> next_id s' \<and> (sizes_ok s \<longrightarrow> sizes_ok s')"
  "del_height s = (r, s') \<Longrightarrow> kept s s' \<and> next_id s \<le> next_id s' \<and> (sizes_ok s \<longrightarrow> sizes_ok s')"
  "del_theta s = (r, s') \<Longrightarrow> kept s s' \<and> next_id s \<le> next_id s' \<and> (sizes_ok s \<longrightarrow> sizes_ok s')"
  by (auto simp: del_width_def del_height_def del_theta_def kept_def sizes_ok_def
      split: option.splits)

lemma scale_good: "good (scale dec wfac hfac lock)"
  unfolding scale_def
  by (auto intro!: thn_good default_size_good assign_size_good raise_good pure_if_good)

lemma resize_good: "good (resize dec w h)"
  unfolding resize_def
  by (auto intro!: thn_good default_size_good scale_good raise_good pure_good)

lemma exec_kept: "kept s (exec dec opn s) \<and> next_id s \<le> next_id (exec dec opn s)"
proof -
  have g: "good m \<Longrightarrow> kept s (snd (m s)) \<and> next_id s \<le> next_id (snd (m s))" for m :: "(img, 'a) prog"
    unfolding good_def by (metis prod.collapse)
  show ?thesis
    by (cases opn)
      (simp_all add: g width_good height_good theta_good set_width_good set_height_good
        set_theta_good default_surface_good default_size_good surface_good pattern_good
        del_pattern_good scale_good resize_good,
       simp_all add: del_surface_def del_width_def del_height_def del_theta_def kept_def
         split: option.splits)
qed

lemma exec_sizes_ok: "sizes_ok s \<Longrightarrow> sizes_ok (exec dec opn s)"
proof -
  assume a: "sizes_ok s"
  have g: "good m \<Longrightarrow> sizes_ok (snd (m s))" for m :: "(img, 'a) prog"
    using a unfolding good_def by (metis prod.collapse)
  show ?thesis
    by (cases opn)
      (simp_all add: g width_good height_good theta_good set_width_good set_height_good
        set_theta_good default_surface_good default_size_good surface_good pattern_good
        del_pattern_good scale_good resize_good, insert a,
       simp_all add: del_surface_def del_width_def del_height_def del_theta_def sizes_ok_def
         split: option.splits)
qed

lemma exec_caches_ok:
  "caches_ok s \<Longrightarrow> opn \<notin> {Del_surface, Del_width, Del_height, Del_theta} \<Longrightarrow>
   caches_ok (exec dec opn s)"
proof -
  assume a: "caches_ok s" and n: "opn \<notin> {Del_surface, Del_width, Del_height, Del_theta}"
  have g: "good m \<Longrightarrow> caches_ok (snd (m s))" for m :: "(img, 'a) prog"
    using a unfolding good_def by (metis prod.collapse)
  show ?thesis using n
    by (cases opn)
      (simp_all add: g width_good height_good theta_good set_width_good set_height_good
        set_theta_good default_surface_good default_size_good surface_good pattern_good
        del_pattern_good scale_good resize_good)
qed

lemma run_kept: "kept s (run dec ops s) \<and> next_id s \<le> next_id (run dec ops s)"
proof (induction ops arbitrary: s)
  case Nil show ?case by (simp add: run_def kept_def)
next
  case (Cons opn ops)
  from exec_kept[of s dec opn] Cons.IH[of "exec dec opn s"] show ?case
    by (auto simp: run_def intro: kept_trans)
qed

lemma run_sizes_ok: "sizes_ok s \<Longrightarrow> sizes_ok (run dec ops s)"
  by (induction ops arbitrary: s) (simp_all add: run_def exec_sizes_ok)

lemma run_caches_ok:
  "caches_ok s \<Longrightarrow> set ops \<inter> {Del_surface, Del_width, Del_height, Del_theta} = {} \<Longrightarrow>
   caches_ok (run dec ops s)"
proof (induction ops arbitrary: s)
  case Nil
  then show ?case by (simp add: run_def)
next
  case (Cons opn ops)
  from Cons.prems have "caches_ok (exec dec opn s)"
    by (intro exec_caches_ok) auto
  from Cons.IH[OF this] Cons.prems(2) show ?case by (simp add: run_def)
qed

lemma Img_ok: "sizes_ok (Img b n p)" "caches_ok (Img b n p)"
  by (simp_all add: Img_def sizes_ok_def caches_ok_def)

section \<open>Writing theta\<close>




section \<open>Pixel sizes\<close>

lemma natural_ok_upd [simp]:
  "natural_ok dec (s\<lparr>under_surface := a\<rparr>) = natural_ok dec s"
  "natural_ok dec (s\<lparr>under_pattern := b\<rparr>) = natural_ok dec s"
  "natural_ok dec (s\<lparr>under_width := c\<rparr>) = natural_ok dec s"
  "natural_ok dec (s\<lparr>under_height := d\<rparr>) = natural_ok dec s"
  "natural_ok dec (s\<lparr>under_theta := e\<rparr>) = natural_ok dec s"
  "natural_ok dec (s\<lparr>finished := f\<rparr>) = natural_ok dec s"
  "natural_ok dec (s\<lparr>next_id := g\<rparr>) = natural_ok dec s"
  "natural_ok dec (s\<lparr>calls := h\<rparr>) = natural_ok dec s"
  "natural_ok dec (s\<lparr>warnings := i\<rparr>) = natural_ok dec s"
  by (simp_all add: natural_ok_def)

lemma thn_keeps:
  assumes "keeps_natural dec m" "\<And>v. keeps_natural dec (f v)"
  shows "keeps_natural dec (thn m f)"
  unfolding keeps_natural_def
proof (intro allI impI)
  fix s r s' assume ok: "natural_ok dec s" and run: "thn m f s = (r, s')"
  from run show "natural_ok dec s'"
  proof (cases rule: thn_cases)
    case (fail e)
    with assms(1) ok show ?thesis unfolding keeps_natural_def by blast
  next
    case (ok v s1)
    with assms(1) \<open>natural_ok dec s\<close> have "natural_ok dec s1"
      unfolding keeps_natural_def by blast
    with assms(2)[of v] ok(2) show ?thesis unfolding keeps_natural_def by blast
  qed
qed

lemma gcs_keeps: "keeps_natural dec (get_cairo_surface dec b w h)"
  unfolding keeps_natural_def
  by (auto simp: get_cairo_surface_def decode_to_image_surface_def Let_def
      split: decoded.splits exn.splits prod.splits sum.splits)

lemma gcs_decoded:
  "get_cairo_surface dec b w h s = (Inr (sf, fmt), s') \<Longrightarrow>
     \<exists>a. dec b a = Decoded (get_width sf) (get_height sf) fmt"
  by (auto simp: get_cairo_surface_def decode_to_image_surface_def Let_def
      split: decoded.splits exn.splits prod.splits sum.splits)

lemma gcs_same_memos:
  "get_cairo_surface dec b w h s = (r, s') \<Longrightarrow>
     under_default_surface s' = under_default_surface s \<and>
     under_default_size s' = under_default_size s \<and> bytes_img s' = bytes_img s"
  by (auto simp: get_cairo_surface_def decode_to_image_surface_def Let_def
      split: decoded.splits exn.splits prod.splits sum.splits)

lemma default_surface_keeps: "keeps_natural dec (default_surface dec)"
  unfolding keeps_natural_def
proof (intro allI impI)
  fix s r s' assume ok: "natural_ok dec s" and run: "default_surface dec s = (r, s')"
  show "natural_ok dec s'"
  proof (cases "under_default_surface s")
    case (Some sf)
    with run ok show ?thesis by (simp add: default_surface_def)
  next
    case None
    obtain r1 s1 where g: "get_cairo_surface dec (bytes_img s) None None s = (r1, s1)"
      by (cases "get_cairo_surface dec (bytes_img s) None None s")
    note same = gcs_same_memos[OF g]
    show ?thesis
    proof (cases r1)
      case (Inl e)
      with run None g have "s' = s1" by (simp add: default_surface_def)
      with same ok show ?thesis by (simp add: natural_ok_def)
    next
      case (Inr v)
      obtain sf fmt where v: "v = (sf, fmt)" by (cases v)
      from run None g Inr v have s': "s' = s1\<lparr>under_default_surface := Some sf\<rparr>"
        by (simp add: default_surface_def)
      from gcs_decoded[OF g[unfolded Inr v]] obtain a where
        "dec (bytes_img s) a = Decoded (get_width sf) (get_height sf) fmt" ..
      moreover from ok None have "under_default_size s = None"
        by (cases "under_default_size s") (auto simp: natural_ok_def)
      ultimately show ?thesis using same by (auto simp: natural_ok_def s')
    qed
  qed
qed

lemma default_surface_result:
  "default_surface dec s = (Inr sf, s') \<Longrightarrow> under_default_surface s' = Some sf"
  by (auto simp: default_surface_def split: option.splits prod.splits sum.splits)

lemma default_size_keeps: "keeps_natural dec (default_size dec)"
  unfolding keeps_natural_def
proof (intro allI impI)
  fix s r s' assume ok: "natural_ok dec s" and run: "default_size dec s = (r, s')"
  show "natural_ok dec s'"
  proof (cases "under_default_size s")
    case (Some z)
    with run ok show ?thesis by (simp add: default_size_def)
  next
    case None
    obtain r1 s1 where g: "default_surface dec s = (r1, s1)"
      by (cases "default_surface dec s")
    from default_surface_keeps ok g have ok1: "natural_ok dec s1"
      unfolding keeps_natural_def by blast
    show ?thesis
    proof (cases r1)
      case (Inl e)
      with run None g ok1 show ?thesis by (simp add: default_size_def)
    next
      case (Inr sf)
      from run None g Inr
      have s': "s' = s1\<lparr>under_default_size := Some (get_width sf, get_height sf)\<rparr>"
        by (simp add: default_size_def Let_def)
      from default_surface_result[OF g[unfolded Inr]] ok1 show ?thesis
        by (auto simp: natural_ok_def s')
    qed
  qed
qed

lemma pure_keeps: "keeps_natural dec (\<lambda>s. (x, s))"
  by (simp add: keeps_natural_def)

lemma ret_keeps: "keeps_natural dec (ret x)"
  by (simp add: keeps_natural_def ret_def)

lemma raise_keeps: "keeps_natural dec (raise_exn e)"
  by (simp add: keeps_natural_def raise_exn_def)

lemma pure_if_keeps: "keeps_natural dec (\<lambda>s. if c then (x, s) else (y, s))"
  by (simp add: keeps_natural_def)

lemma case_option_keeps:
  assumes "\<And>v. keeps_natural dec (\<lambda>s. (f v, s))" "keeps_natural dec m"
  shows "keeps_natural dec (\<lambda>s. case g s of Some v \<Rightarrow> (f v, s) | None \<Rightarrow> m s)"
  using assms unfolding keeps_natural_def by (auto split: option.splits)

lemma width_keeps: "keeps_natural dec (width dec)"
  unfolding width_def
  by (intro case_option_keeps pure_keeps thn_keeps default_size_keeps ret_keeps)

lemma height_keeps: "keeps_natural dec (height dec)"
  unfolding height_def
  by (intro case_option_keeps pure_keeps thn_keeps default_size_keeps ret_keeps)

lemma theta_keeps: "keeps_natural dec theta"
  by (auto simp: keeps_natural_def theta_def split: option.splits)

lemma gcs_bytes_keeps:
  "keeps_natural dec (\<lambda>s1. get_cairo_surface dec (bytes_img s1) w h s1)"
  using gcs_keeps unfolding keeps_natural_def by blast

lemma upd_keeps:
  "keeps_natural dec (\<lambda>s2. (x, s2\<lparr>under_surface := a\<rparr>))"
  "keeps_natural dec (\<lambda>s2. (y, s2\<lparr>under_pattern := b\<rparr>))"
  by (simp_all add: keeps_natural_def)

lemma surface_keeps: "keeps_natural dec (surface dec)"
  unfolding surface_def
  by (intro case_option_keeps pure_keeps thn_keeps width_keeps height_keeps gcs_bytes_keeps
      upd_keeps)

lemma gcp_keeps: "keeps_natural dec (get_cairo_pattern surf w h t)"
  by (auto simp: keeps_natural_def get_cairo_pattern_def split: sum.splits)

lemma pattern_keeps: "keeps_natural dec (pattern dec)"
  unfolding pattern_def
  by (intro case_option_keeps pure_keeps thn_keeps surface_keeps width_keeps height_keeps
      theta_keeps gcp_keeps upd_keeps)

lemma hasattr_keeps: "keeps_natural dec g \<Longrightarrow> keeps_natural dec (hasattr g)"
  unfolding keeps_natural_def
  by (auto elim!: hasattr_cases)

lemma if_keeps:
  "keeps_natural dec m1 \<Longrightarrow> keeps_natural dec m2 \<Longrightarrow> keeps_natural dec (if c then m1 else m2)"
  by simp

lemma misc_keeps:
  "keeps_natural dec (finish surf)" "keeps_natural dec del_surface" "keeps_natural dec del_pattern"
  by (simp_all add: keeps_natural_def finish_def del_surface_def del_pattern_def)

lemma reset_keeps: "keeps_natural dec (reset dec)"
  unfolding reset_def
  by (intro thn_keeps hasattr_keeps surface_keeps pattern_keeps if_keeps misc_keeps ret_keeps)

lemma reset_keeps_from:
  "natural_ok dec s0 \<Longrightarrow> reset dec s0 = (r, s') \<Longrightarrow> natural_ok dec s'"
  using reset_keeps[of dec] unfolding keeps_natural_def by blast

lemma set_keeps:
  "keeps_natural dec (set_width dec v)" "keeps_natural dec (set_height dec v)"
  "keeps_natural dec (set_theta dec v)"
  unfolding keeps_natural_def set_width_def set_height_def set_theta_def Let_def
  by (auto elim!: reset_keeps_from[rotated])

lemma assign_size_keeps:
  "keeps_natural dec (assign_size (set_width dec) v)"
  "keeps_natural dec (assign_size (set_height dec) v)"
  by (cases v; simp add: assign_size_def set_keeps raise_keeps)+

lemma del_attr_keeps_natural:
  "keeps_natural dec del_width" "keeps_natural dec del_height" "keeps_natural dec del_theta"
  by (auto simp: keeps_natural_def del_width_def del_height_def del_theta_def
      split: option.splits)

lemma scale_keeps: "keeps_natural dec (scale dec wfac hfac lock)"
  unfolding scale_def
  by (intro thn_keeps if_keeps raise_keeps default_size_keeps pure_if_keeps assign_size_keeps)

lemma resize_keeps: "keeps_natural dec (resize dec w h)"
  unfolding resize_def
  by (intro thn_keeps if_keeps raise_keeps default_size_keeps scale_keeps pure_keeps)

lemma exec_natural_ok: "natural_ok dec s \<Longrightarrow> natural_ok dec (exec dec opn s)"
proof -
  assume a: "natural_ok dec s"
  have g: "keeps_natural dec m \<Longrightarrow> natural_ok dec (snd (m s))" for m :: "(img, 'a) prog"
    using a unfolding keeps_natural_def by (metis prod.collapse)
  show ?thesis
    by (cases opn)
      (simp_all add: g width_keeps height_keeps theta_keeps set_keeps default_surface_keeps
        default_size_keeps surface_keeps pattern_keeps misc_keeps scale_keeps resize_keeps
        del_attr_keeps_natural)
qed

lemma run_natural_ok: "natural_ok dec s \<Longrightarrow> natural_ok dec (run dec ops s)"
  by (induction ops arbitrary: s) (simp_all add: run_def exec_natural_ok)

lemma Img_natural_ok: "natural_ok dec (Img b n p)"
  by (simp add: natural_ok_def Img_def)


lemma default_size_from_decoder:
  assumes "natural_ok dec s" and "default_size dec s = (Inr z, s')"
  shows "\<exists>a fmt. dec (bytes_img s) a = Decoded (fst z) (snd z) fmt"
proof -
  from default_size_keeps assms have ok: "natural_ok dec s'"
    unfolding keeps_natural_def by blast
  from default_size_memo_step[OF assms(2)] have b: "bytes_img s' = bytes_img s"
    by (simp add: memo_step_def)
  from default_size_result[OF assms(2)] ok b show ?thesis
    by (auto simp: natural_ok_def)
qed

lemma width_read_from_decoder:
  assumes "natural_ok dec s" and "width dec s = (Inr w, s')"
  shows "under_width s = Some w \<or> (\<exists>a h fmt. dec (bytes_img s) a = Decoded w h fmt)"
proof (cases "under_width s")
  case (Some x)
  with assms(2) show ?thesis by (simp add: width_def)
next
  case None
  with assms(2) obtain z where "default_size dec s = (Inr z, s')" "w = fst z"
    by (auto simp: width_def thn_def ret_def split: prod.splits sum.splits)
  with default_size_from_decoder[OF assms(1) this(1)] show ?thesis by auto
qed

lemma height_read_from_decoder:
  assumes "natural_ok dec s" and "height dec s = (Inr h, s')"
  shows "under_height s = Some h \<or> (\<exists>a w fmt. dec (bytes_img s) a = Decoded w h fmt)"
proof (cases "under_height s")
  case (Some x)
  with assms(2) show ?thesis by (simp add: height_def)
next
  case None
  with assms(2) obtain z where "default_size dec s = (Inr z, s')" "h = snd z"
    by (auto simp: height_def thn_def ret_def split: prod.splits sum.splits)
  with default_size_from_decoder[OF assms(1) this(1)] show ?thesis by auto
qed

lemma run_bytes: "bytes_img (run dec ops s) = bytes_img s"
  using run_kept[of s dec ops] by (simp add: kept_def)

text \<open>
  C7. A write to \<open>width\<close> or \<open>height\<close> stores \<open>max(round(value), 1)\<close>, whatever the
  reset that follows does; Python's \<open>round\<close> is within one half of its argument, so the
  stored value is a nearest integer, clamped below at 1. Hence after every sequence of
  operations on a new handle a width or height that has been written is an integer of
  at least 1, and reading it returns that integer. A size that was never written reads
  as the natural size; so if the decoder only returns surfaces of positive size, every
  read of width or height that returns gives at least 1.
\<close>

theorem pixel_size_rounded_and_clamped:
  "under_width (snd (set_width dec v s)) = Some (max (py_round v) 1) \<and>
   under_height (snd (set_height dec v s)) = Some (max (py_round v) 1) \<and>
   \<bar>real_of_int (py_round v) - v\<bar> \<le> 1 / 2 \<and>
   (\<forall>w. under_width (run dec ops (Img b n p)) = Some w \<longrightarrow>
      1 \<le> w \<and> width dec (run dec ops (Img b n p)) = (Inr w, run dec ops (Img b n p))) \<and>
   (\<forall>h. under_height (run dec ops (Img b n p)) = Some h \<longrightarrow>
      1 \<le> h \<and> height dec (run dec ops (Img b n p)) = (Inr h, run dec ops (Img b n p))) \<and>
   ((\<forall>a w h fmt. dec b a = Decoded w h fmt \<longrightarrow> 1 \<le> w \<and> 1 \<le> h) \<longrightarrow>
      (\<forall>w s'. width dec (run dec ops (Img b n p)) = (Inr w, s') \<longrightarrow> 1 \<le> w) \<and>
      (\<forall>h s'. height dec (run dec ops (Img b n p)) = (Inr h, s') \<longrightarrow> 1 \<le> h))"
proof -
  let ?S = "run dec ops (Img b n p)"
  have w: "under_width (snd (set_width dec v s)) = Some (max (py_round v) 1)"
    using set_width_stored[of dec v s "fst (set_width dec v s)" "snd (set_width dec v s)"]
    by simp
  have h: "under_height (snd (set_height dec v s)) = Some (max (py_round v) 1)"
    using set_height_stored[of dec v s "fst (set_height dec v s)" "snd (set_height dec v s)"]
    by simp
  have near: "\<bar>real_of_int (py_round v) - v\<bar> \<le> 1 / 2"
    unfolding py_round_def Let_def by (auto; linarith)
  have ok: "sizes_ok ?S"
    by (rule run_sizes_ok) (rule Img_ok)
  have nok: "natural_ok dec ?S"
    by (rule run_natural_ok) (rule Img_natural_ok)
  have bts: "bytes_img ?S = b"
    by (simp add: run_bytes Img_def)
  have rw: "width dec t = (Inr x, t)" if "under_width t = Some x" for t x
    using that by (simp add: width_def)
  have rh: "height dec t = (Inr x, t)" if "under_height t = Some x" for t x
    using that by (simp add: height_def)
  have pw: "1 \<le> x" if pos: "\<forall>a w h fmt. dec b a = Decoded w h fmt \<longrightarrow> 1 \<le> w \<and> 1 \<le> h"
    and rd: "width dec ?S = (Inr x, s')" for x s'
    using width_read_from_decoder[OF nok rd] ok pos unfolding bts sizes_ok_def by blast
  have ph: "1 \<le> x" if pos: "\<forall>a w h fmt. dec b a = Decoded w h fmt \<longrightarrow> 1 \<le> w \<and> 1 \<le> h"
    and rd: "height dec ?S = (Inr x, s')" for x s'
    using height_read_from_decoder[OF nok rd] ok pos unfolding bts sizes_ok_def by blast
  from w h near ok rw rh pw ph show ?thesis
    unfolding sizes_ok_def by blast
qed

text \<open>
  The theorem after writing width 2.5 (a tie, rounded to the even 2), height -3 (clamped
  to 1) and theta 10.
\<close>

theorem pixel_size_rounded_and_clamped_witness:
  "under_width (run dec_sized [Set_width (5 / 2), Set_height (- 3), Set_theta 10] example_img) = Some 2 \<and>
   under_height (run dec_sized [Set_width (5 / 2), Set_height (- 3), Set_theta 10] example_img) = Some 1 \<and>
   (1::int) \<le> 2 \<and>
   width dec_sized (run dec_sized [Set_width (5 / 2), Set_height (- 3), Set_theta 10] example_img) =
     (Inr 2, run dec_sized [Set_width (5 / 2), Set_height (- 3), Set_theta 10] example_img)"
proof -
  have a: "under_width (run dec_sized [Set_width (5 / 2), Set_height (- 3), Set_theta 10] example_img) = Some 2"
    by (simp add: run_def example_img_def img_defs dec_sized_def py_round_def pattern_matrix_def)
  have b: "under_height (run dec_sized [Set_width (5 / 2), Set_height (- 3), Set_theta 10] example_img) = Some 1"
    by (simp add: run_def example_img_def img_defs dec_sized_def py_round_def pattern_matrix_def)
  from pixel_size_rounded_and_clamped[of dec_sized 0 example_img
      "[Set_width (5 / 2), Set_height (- 3), Set_theta 10]" "''bytes''" "''icon''" "''icon.png''"]
    a b show ?thesis
    unfolding example_img_def by blast
qed

section \<open>The matrix of the pattern\<close>

lemmas matrix_defs = pattern_matrix_def scale_matrix_def translate_def rotate_def multiply_def
  Matrix_def transform_point_def Let_def

text \<open>
  The pattern's matrix takes a point of user space, where the resized image occupies
  \<open>[0, width] x [0, height]\<close>, to a point of the surface. The rotation is applied
  first, about \<open>(xt, yt)\<close>, and the scale second. When the surface already has the
  target size the factors are 1 and \<open>(xt, yt)\<close> is the centre of the image. In
  general \<open>(xt, yt) = (surf_width * tr_width / 2, surf_height * tr_height / 2)\<close> is
  the point the rotation leaves in place.
\<close>

lemma rotation_about_centre_when_sizes_agree:
  assumes "real_of_int (get_width surf) = w" and "real_of_int (get_height surf) = h"
    and "\<bar>t\<bar> > 1 / 1000000"
  shows "\<exists>m. pattern_matrix surf (Some w) (Some h) t = Inr m \<and>
           transform_point m (w / 2, h / 2) = (w / 2, h / 2)"
  using assms by (simp add: matrix_defs field_simps)

lemma rotation_pivot_in_general:
  assumes "w \<noteq> 0" and "h \<noteq> 0" and "\<bar>t\<bar> > 1 / 1000000"
    and "sw = real_of_int (get_width surf)" and "sh = real_of_int (get_height surf)"
  shows "\<exists>m. pattern_matrix surf (Some w) (Some h) t = Inr m \<and>
           transform_point m (sw * (sw / w) / 2, sh * (sh / h) / 2) =
             (sw / w * (sw * (sw / w) / 2), sh / h * (sh * (sh / h) / 2))"
  using assms by (simp add: matrix_defs field_simps)

lemma code_pi_not_full_turn: "cos (3141592653589793 / 1000000000000000 :: real) \<noteq> 1"
proof
  assume "cos (3141592653589793 / 1000000000000000 :: real) = 1"
  then obtain k :: int where k: "(3141592653589793 / 1000000000000000 :: real) = of_int k * 2 * pi"
    using cos_one_2pi_int by blast
  have p: "2 \<le> pi" "pi < 4" using pi_ge_two pi_less_4 by auto
  have "0 < k"
  proof (rule ccontr)
    assume "\<not> 0 < k"
    then have "of_int k * 2 * pi \<le> (0::real)" using p
      by (simp add: mult_nonpos_nonneg)
    with k show False by simp
  qed
  then have "1 \<le> k" by simp
  then have "(1::real) \<le> of_int k" by simp
  then have "2 * pi \<le> of_int k * 2 * pi" using p by simp
  with k p show False by simp
qed

lemma failing_matrix:
  "pattern_matrix \<lparr>sid = 0, get_width = 100, get_height = 100\<rparr> (Some 200) (Some 200) 180 =
     Inr \<lparr>xx = cos (3141592653589793 / 1000000000000000) / 2,
          yx = sin (3141592653589793 / 1000000000000000) / 2,
          xy = - sin (3141592653589793 / 1000000000000000) / 2,
          yy = cos (3141592653589793 / 1000000000000000) / 2,
          x0 = (25 - 25 * cos (3141592653589793 / 1000000000000000)
                   + 25 * sin (3141592653589793 / 1000000000000000)) / 2,
          y0 = (25 - 25 * sin (3141592653589793 / 1000000000000000)
                   - 25 * cos (3141592653589793 / 1000000000000000)) / 2\<rparr>"
  by (simp add: matrix_defs)

text \<open>
  C2. A surface of 100 x 100 shown at 200 x 200 and rotated by 180 degrees: the scale
  factors are 1/2, so the code takes \<open>(xt, yt) = (25, 25)\<close>. The matrix leaves
  \<open>(25, 25)\<close> in place (it goes where the scale alone sends it), and it does not send
  the centre \<open>(100, 100)\<close> of the resized image to the centre \<open>(50, 50)\<close> of the
  surface: the rotation does not pivot about the centre of the resized image.
\<close>

theorem rotation_pivot_off_centre:
  "transform_point
     (projr (pattern_matrix \<lparr>sid = 0, get_width = 100, get_height = 100\<rparr> (Some 200) (Some 200) 180))
     (25, 25) = (25 / 2, 25 / 2) \<and>
   transform_point
     (projr (pattern_matrix \<lparr>sid = 0, get_width = 100, get_height = 100\<rparr> (Some 200) (Some 200) 180))
     (100, 100) \<noteq> (50, 50)"
proof -
  define c :: real where "c = cos (3141592653589793 / 1000000000000000)"
  define s :: real where "s = sin (3141592653589793 / 1000000000000000)"
  have c1: "c \<noteq> 1" unfolding c_def by (rule code_pi_not_full_turn)
  have a: "transform_point
     (projr (pattern_matrix \<lparr>sid = 0, get_width = 100, get_height = 100\<rparr> (Some 200) (Some 200) 180))
     (25, 25) = (25 / 2, 25 / 2)"
    by (simp add: failing_matrix transform_point_def field_simps)
  have b: "transform_point
     (projr (pattern_matrix \<lparr>sid = 0, get_width = 100, get_height = 100\<rparr> (Some 200) (Some 200) 180))
     (100, 100) = ((75 * c - 75 * s + 25) / 2, (75 * s + 75 * c + 25) / 2)"
    by (simp add: failing_matrix transform_point_def c_def s_def field_simps)
  have "((75 * c - 75 * s + 25) / 2, (75 * s + 75 * c + 25) / 2) \<noteq> (50, 50)"
  proof
    assume "((75 * c - 75 * s + 25) / 2, (75 * s + 75 * c + 25) / 2) = (50, 50)"
    then have "(75 * c - 75 * s + 25) / 2 = 50" "(75 * s + 75 * c + 25) / 2 = 50" by simp_all
    then have "c = 1" by simp
    with c1 show False by simp
  qed
  with a b show ?thesis by simp
qed

section \<open>Resolving names\<close>

lemma set_set_add [simp]: "set (set_add x xs) = insert x (set xs)"
  by (auto simp: set_add_def)













lemma set_query_names:
  "set (query_names names) =
     (\<lambda>n. if snd (splitext n) \<noteq> [] then n else n @ ''.*'') ` set names"
proof -
  have "set (fold (\<lambda>n set_names.
             if snd (splitext n) \<noteq> [] then set_add n set_names
             else set_add (n @ ''.*'') set_names) names acc) =
        set acc \<union> (\<lambda>n. if snd (splitext n) \<noteq> [] then n else n @ ''.*'') ` set names" for acc
    by (induction names arbitrary: acc) auto
  then show ?thesis by (simp add: query_names_def)
qed




text \<open>
  Two queries never share a key of the result, as long as every requested name without
  an extension gets one when \<open>.*\<close> is appended (any name whose last component has a
  character other than a dot).
\<close>

lemma result_keys_distinct:
  assumes ext: "\<forall>n \<in> set names. snd (splitext n) = [] \<longrightarrow> snd (splitext (n @ ''.*'')) \<noteq> []"
    and q: "q \<in> set (query_names names)" and q': "q' \<in> set (query_names names)"
    and eq: "result_key names q' = result_key names q"
  shows "q' = q"
proof -
  have form: "x \<in> set names \<and> snd (splitext x) \<noteq> [] \<or>
              (\<exists>n \<in> set names. snd (splitext n) = [] \<and> x = n @ ''.*'')"
    if "x \<in> set (query_names names)" for x
    using that unfolding set_query_names by (auto split: if_splits)
  have key: "result_key names x = (if x \<in> set names then x else n)"
    if "x = n @ ''.*''" for x n
    using that by (simp add: result_key_def)
  have wild: "snd (splitext x) \<noteq> []"
    if "x \<in> set (query_names names)" "x \<in> set names" for x
    using form[OF that(1)] that(2) ext by auto
  show ?thesis
  proof (cases "q \<in> set names")
    case True
    note qn = this
    show ?thesis
    proof (cases "q' \<in> set names")
      case True
      with qn eq show ?thesis by (simp add: result_key_def)
    next
      case False
      with form[OF q'] obtain n where n: "n \<in> set names" "snd (splitext n) = []" "q' = n @ ''.*''"
        by auto
      have "result_key names q = q" using qn by (simp add: result_key_def)
      moreover have "result_key names q' = n" using False key[OF n(3)] by simp
      ultimately have "q = n" using eq by simp
      with wild[OF q qn] n(2) show ?thesis by simp
    qed
  next
    case False
    note qn = this
    with form[OF q] obtain n where n: "n \<in> set names" "snd (splitext n) = []" "q = n @ ''.*''"
      by auto
    show ?thesis
    proof (cases "q' \<in> set names")
      case True
      have "result_key names q' = q'" using True by (simp add: result_key_def)
      moreover have "result_key names q = n" using qn key[OF n(3)] by simp
      ultimately have "q' = n" using eq by simp
      with wild[OF q' True] n(2) show ?thesis by simp
    next
      case False
      with form[OF q'] obtain m where m: "m \<in> set names" "snd (splitext m) = []" "q' = m @ ''.*''"
        by auto
      from eq qn False have "m = n" by (simp add: key[OF n(3)] key[OF m(3)])
      with n m show ?thesis by simp
    qed
  qed
qed



subsection \<open>Unmatched queries\<close>






section \<open>Constructing a loader\<close>

lemma setattrs_plain:
  "\<forall>k \<in> set (map fst kwargs). k \<noteq> ''__class__'' \<and> k \<noteq> ''__dict__'' \<and> k \<noteq> ''__weakref__'' \<Longrightarrow>
   setattrs kwargs m = Inr (m ++ (map_option Opt \<circ> map_of (rev kwargs)))"
proof (induction kwargs arbitrary: m)
  case Nil
  show ?case by simp
next
  case (Cons kv kws)
  from Cons.prems have "setattrs (kv # kws) m = setattrs kws (m(fst kv \<mapsto> Opt (snd kv)))"
    by (simp add: setattr_def)
  also have "\<dots> = Inr ((m(fst kv \<mapsto> Opt (snd kv))) ++ (map_option Opt \<circ> map_of (rev kws)))"
    by (rule Cons.IH) (use Cons.prems in simp)
  also have "(m(fst kv \<mapsto> Opt (snd kv))) ++ (map_option Opt \<circ> map_of (rev kws)) =
             m ++ (map_option Opt \<circ> map_of (rev (kv # kws)))"
    by (rule ext) (auto simp: map_add_def split: option.splits)
  finally show ?case .
qed

lemma directories_Loader: "Loader ds kwargs = Inr self \<Longrightarrow> directories self = ds"
  by (auto simp: Loader_def directories_def split: if_splits sum.splits)

text \<open>
  C6. The constructor has no list of known options. Every keyword argument whose name
  is none of \<open>self\<close>, \<open>__class__\<close>, \<open>__dict__\<close> and \<open>__weakref__\<close> is accepted
  and becomes an attribute of the instance under its own name; \<open>directories\<close> is then
  set to the list of the positional arguments, so a keyword argument named
  \<open>directories\<close> is accepted too but its value is overwritten. (The keyword arguments
  of a call have distinct names; for a list with a repeated name the later value stays.)
\<close>

theorem Loader_stores_unrecognized_options:
  assumes "\<forall>k \<in> set (map fst kwargs).
             k \<noteq> ''self'' \<and> k \<noteq> ''__class__'' \<and> k \<noteq> ''__dict__'' \<and> k \<noteq> ''__weakref__''"
  shows "Loader ds kwargs =
           Inr ((map_option Opt \<circ> map_of (rev kwargs))(''directories'' \<mapsto> Dirs ds)) \<and>
         (\<forall>k v. distinct (map fst kwargs) \<and> (k, v) \<in> set kwargs \<and> k \<noteq> ''directories'' \<longrightarrow>
            projr (Loader ds kwargs) k = Some (Opt v))"
proof -
  from assms have a: "''self'' \<notin> set (map fst kwargs)" by auto
  from assms have "setattrs kwargs Map.empty =
      Inr (Map.empty ++ (map_option Opt \<circ> map_of (rev kwargs)))"
    by (intro setattrs_plain) auto
  with a have eq: "Loader ds kwargs =
           Inr ((map_option Opt \<circ> map_of (rev kwargs))(''directories'' \<mapsto> Dirs ds))"
    by (simp add: Loader_def)
  have "projr (Loader ds kwargs) k = Some (Opt v)"
    if "distinct (map fst kwargs)" "(k, v) \<in> set kwargs" "k \<noteq> ''directories''" for k v
  proof -
    from that(1) have "distinct (map fst (rev kwargs))" by (simp add: rev_map[symmetric])
    with that(2) have "map_of (rev kwargs) k = Some v" by simp
    with that(3) show ?thesis by (simp add: eq)
  qed
  with eq show ?thesis by blast
qed

text \<open>The theorem for the single option \<open>frobnicate=1\<close>.\<close>

theorem Loader_stores_unrecognized_options_witness:
  "Loader [''A''] [(''frobnicate'', 1::int)] =
     Inr ((map_option Opt \<circ> map_of (rev [(''frobnicate'', 1::int)]))(''directories'' \<mapsto> Dirs [''A''])) \<and>
   projr (Loader [''A''] [(''frobnicate'', 1::int)]) ''frobnicate'' = Some (Opt 1)"
proof -
  have h: "\<forall>k \<in> set (map fst [(''frobnicate'', 1::int)]).
             k \<noteq> ''self'' \<and> k \<noteq> ''__class__'' \<and> k \<noteq> ''__dict__'' \<and> k \<noteq> ''__weakref__''"
    by simp
  from Loader_stores_unrecognized_options[OF h, of "[''A'']"] show ?thesis by simp
qed

text \<open>
  The option \<open>frobnicate=1\<close>, which nothing recognises, is accepted: the constructor
  returns, and the instance has the attribute \<open>frobnicate\<close> with value 1.
\<close>

theorem Loader_rejects_unknown_option_counterexample:
  "\<not> isl (Loader [''A''] [(''frobnicate'', 1::int)]) \<and>
   projr (Loader [''A''] [(''frobnicate'', 1::int)]) ''frobnicate'' = Some (Opt 1) \<and>
   directories (projr (Loader [''A''] [(''frobnicate'', 1::int)])) = [''A'']"
  by (simp add: Loader_def setattr_def directories_def)

text \<open>
  The names left out above: a keyword \<open>self\<close> or \<open>__class__\<close> makes the constructor
  raise \<open>TypeError\<close>, though not because the option is unknown; a keyword
  \<open>directories\<close> is overwritten by the list of directories.
\<close>

lemma Loader_refused_keywords:
  "Loader [''A''] [(''self'', 1::int)] = Inl TypeError"
  "Loader [''A''] [(''__class__'', 1::int)] = Inl TypeError"
  "projr (Loader [''A''] [(''directories'', 1::int)]) ''directories'' = Some (Dirs [''A''])"
  by (simp_all add: Loader_def setattr_def)

section \<open>Arguments of resize and scale\<close>

lemma default_size_again:
  "default_size dec s = (Inr z, s1) \<Longrightarrow> default_size dec s1 = (Inr z, s1)"
  by (rule default_size_memo) (rule default_size_result)

lemma truthy_simps [simp]:
  "truthy None = False" "truthy (Some (PyInt i)) = (i \<noteq> 0)"
  "truthy (Some (PyFloat x)) = (x \<noteq> 0)" "truthy (Some PyInf) = True" "truthy (Some PyNan) = True"
  by (simp_all add: truthy_def)

lemma truthy_nonzero: "truthy (Some v) \<longleftrightarrow> v \<noteq> PyInt 0 \<and> v \<noteq> PyFloat 0"
  by (cases v) simp_all

text \<open>
  C8. \<open>scale\<close> with neither factor raises the \<open>ValueError\<close> for a missing argument.
  \<open>resize\<close> with neither width nor height first reads the natural size and then raises
  the \<open>ValueError\<close> for a missing argument. \<open>scale\<close> with \<open>lock_aspect_ratio=True\<close>
  and two factors that are both nonzero (neither the int 0 nor the float 0.0) reads the
  natural size and then raises the \<open>ValueError\<close> of \<open>_scale_lock\<close> (the model keeps
  the fixed part of its message). When the natural size cannot be decoded, that error is
  raised instead; in every case the call fails.
\<close>

theorem resize_scale_argument_errors:
  "scale dec None None lock s =
     (Inl (ValueError ''You must supply width_factor or height_factor''), s) \<and>
   (\<forall>z s1. default_size dec s = (Inr z, s1) \<longrightarrow>
      resize dec None None s =
        (Inl (ValueError ''You must supply either width or height!''), s1) \<and>
      (wfac \<noteq> PyInt 0 \<and> wfac \<noteq> PyFloat 0 \<and> hfac \<noteq> PyInt 0 \<and> hfac \<noteq> PyFloat 0 \<longrightarrow>
         scale dec (Some wfac) (Some hfac) True s =
           (Inl (ValueError ''Can't rescale with locked aspect ratio and give width_factor and height_factor.''), s1))) \<and>
   (\<forall>e s1. default_size dec s = (Inl e, s1) \<longrightarrow>
      resize dec None None s = (Inl e, s1) \<and>
      (wfac \<noteq> PyInt 0 \<and> wfac \<noteq> PyFloat 0 \<and> hfac \<noteq> PyInt 0 \<and> hfac \<noteq> PyFloat 0 \<longrightarrow>
         scale dec (Some wfac) (Some hfac) True s = (Inl e, s1)))"
  by (simp add: scale_def resize_def thn_def raise_exn_def scale_lock_def truthy_nonzero)

text \<open>The theorem on a new handle, with both factors 2.\<close>

theorem resize_scale_argument_errors_witness:
  "default_size dec_sized example_img = (Inr (100, 50), snd (default_size dec_sized example_img)) \<and>
   PyInt 2 \<noteq> PyInt 0 \<and> PyInt 2 \<noteq> PyFloat 0 \<and>
   resize dec_sized None None example_img =
     (Inl (ValueError ''You must supply either width or height!''),
      snd (default_size dec_sized example_img)) \<and>
   scale dec_sized (Some (PyInt 2)) (Some (PyInt 2)) True example_img =
     (Inl (ValueError ''Can't rescale with locked aspect ratio and give width_factor and height_factor.''),
      snd (default_size dec_sized example_img))"
proof -
  have h: "default_size dec_sized example_img =
      (Inr (100, 50), snd (default_size dec_sized example_img))"
    by (simp add: example_img_def img_defs dec_sized_def)
  from resize_scale_argument_errors[of dec_sized False example_img "PyInt 2" "PyInt 2"] h
  show ?thesis by simp
qed

text \<open>
  With \<open>lock_aspect_ratio=True\<close> and the factors 0 and 2 both supplied, \<open>scale\<close> raises
  nothing: it returns, and resizes the 100 x 50 image to 200 x 100.
\<close>

theorem scale_lock_both_factors_counterexample:
  "fst (scale dec_sized (Some (PyInt 0)) (Some (PyInt 2)) True example_img) = Inr () \<and>
   under_width (snd (scale dec_sized (Some (PyInt 0)) (Some (PyInt 2)) True example_img)) = Some 200 \<and>
   under_height (snd (scale dec_sized (Some (PyInt 0)) (Some (PyInt 2)) True example_img)) = Some 100"
  by (simp add: example_img_def img_defs dec_sized_def py_round_def pattern_matrix_def)

text \<open>
  A width of zero gives the factor \<open>0 / width0\<close>, the float 0.0, which \<open>scale\<close> and
  \<open>_scale_lock\<close> treat as they treat \<open>None\<close>.
\<close>

lemma scale_lock_zero_width:
  "scale_lock (Some (PyFloat 0)) hfac sz = scale_lock None hfac sz"
  by (simp add: scale_lock_def)

lemma scale_locked_zero_width:
  "scale dec (Some (PyFloat 0)) hfac True = scale dec None hfac True"
  by (simp add: scale_def scale_lock_zero_width)

lemma int_zero_factor:
  "w0 \<noteq> 0 \<Longrightarrow> py_truediv (PyInt 0) (PyInt w0) = Inr (PyFloat 0)"
  by (simp add: py_truediv_def)

lemma float_zero_factor:
  assumes "w0 \<noteq> 0" and "\<bar>w0\<bar> < 2 ^ 53"
  shows "py_truediv (PyFloat 0) (PyInt w0) = Inr (PyFloat 0)"
proof -
  have r: "float_round (real_of_int w0) = real_of_int w0"
    by (rule float_round_of_int[OF assms])
  from assms(2) have "real_of_int \<bar>w0\<bar> < real_of_int (2 ^ 53)" by (simp only: of_int_less_iff)
  then have "\<bar>real_of_int w0\<bar> < 2 ^ 53" by simp
  from below_overflow[OF this] r assms(1) show ?thesis
    by (simp add: py_truediv_def to_float_def bindE_def)
qed

lemma resize_zero_width:
  assumes d: "default_size dec s = (Inr z, s1)"
    and f: "py_truediv zero (PyInt (fst z)) = Inr (PyFloat 0)" and t: "\<not> truthy (Some zero)"
  shows "resize dec (Some zero) (Some h) s = resize dec None (Some h) s"
    and "truthy (Some h) \<Longrightarrow> py_truediv h (PyInt (snd z)) = Inr hf \<Longrightarrow>
         resize dec (Some zero) (Some h) s = scale dec (Some (PyFloat 0)) (Some hf) True s1"
proof -
  show "resize dec (Some zero) (Some h) s = resize dec None (Some h) s"
    using d f t
    by (cases "py_truediv h (PyInt (snd z))")
      (simp_all add: resize_def thn_def bindE_def scale_locked_zero_width)
  show "truthy (Some h) \<Longrightarrow> py_truediv h (PyInt (snd z)) = Inr hf \<Longrightarrow>
         resize dec (Some zero) (Some h) s = scale dec (Some (PyFloat 0)) (Some hf) True s1"
    using d f t by (simp add: resize_def thn_def bindE_def)
qed

text \<open>
  C10. The tests of \<open>resize\<close> and \<open>scale\<close> are tests of truthiness, so a zero counts
  as no argument. \<open>scale\<close> whose factors are each \<open>None\<close> or zero (the int 0 or the
  float 0.0) raises the \<open>ValueError\<close> for a missing argument, even though a factor was
  supplied. \<open>resize(width=0, height=h)\<close> on an image of nonzero natural width does
  exactly what \<open>resize(height=h)\<close> does, in result and in state; for a nonzero \<open>h\<close>
  whose factor \<open>h / height0\<close> is \<open>hf\<close>, that is the call of \<open>scale\<close> with
  \<open>lock_aspect_ratio=True\<close>, where the width factor 0.0 counts as absent. Only the
  dispatch is stated: the numbers that the aspect-locked scale stores are float results.
\<close>

theorem zero_arguments_count_as_absent:
  "((wfac = None \<or> wfac = Some (PyInt 0) \<or> wfac = Some (PyFloat 0)) \<and>
    (hfac = None \<or> hfac = Some (PyInt 0) \<or> hfac = Some (PyFloat 0)) \<longrightarrow>
      scale dec wfac hfac lock s =
        (Inl (ValueError ''You must supply width_factor or height_factor''), s)) \<and>
   (\<forall>z s1. default_size dec s = (Inr z, s1) \<and> fst z \<noteq> 0 \<longrightarrow>
      resize dec (Some (PyInt 0)) (Some h) s = resize dec None (Some h) s \<and>
      (\<bar>fst z\<bar> < 2 ^ 53 \<longrightarrow>
         resize dec (Some (PyFloat 0)) (Some h) s = resize dec None (Some h) s) \<and>
      (\<forall>hf. h \<noteq> PyInt 0 \<and> h \<noteq> PyFloat 0 \<and> py_truediv h (PyInt (snd z)) = Inr hf \<longrightarrow>
         resize dec (Some (PyInt 0)) (Some h) s =
           scale dec (Some (PyFloat 0)) (Some hf) True s1 \<and>
         scale dec (Some (PyFloat 0)) (Some hf) True s1 = scale dec None (Some hf) True s1))"
proof -
  have a: "scale dec wfac hfac lock s =
        (Inl (ValueError ''You must supply width_factor or height_factor''), s)"
    if "(wfac = None \<or> wfac = Some (PyInt 0) \<or> wfac = Some (PyFloat 0)) \<and>
        (hfac = None \<or> hfac = Some (PyInt 0) \<or> hfac = Some (PyFloat 0))"
    using that by (auto simp: scale_def raise_exn_def)
  have b: "resize dec (Some (PyInt 0)) (Some h) s = resize dec None (Some h) s \<and>
      (\<bar>fst z\<bar> < 2 ^ 53 \<longrightarrow>
         resize dec (Some (PyFloat 0)) (Some h) s = resize dec None (Some h) s) \<and>
      (\<forall>hf. h \<noteq> PyInt 0 \<and> h \<noteq> PyFloat 0 \<and> py_truediv h (PyInt (snd z)) = Inr hf \<longrightarrow>
         resize dec (Some (PyInt 0)) (Some h) s =
           scale dec (Some (PyFloat 0)) (Some hf) True s1 \<and>
         scale dec (Some (PyFloat 0)) (Some hf) True s1 = scale dec None (Some hf) True s1)"
    if d: "default_size dec s = (Inr z, s1)" and nz: "fst z \<noteq> 0" for z s1
  proof -
    note i = resize_zero_width[OF d int_zero_factor[OF nz], of h]
    have fz: "resize dec (Some (PyFloat 0)) (Some h) s = resize dec None (Some h) s"
      if "\<bar>fst z\<bar> < 2 ^ 53"
      by (rule resize_zero_width(1)[OF d float_zero_factor[OF nz that]]) simp
    from i fz show ?thesis
      by (simp add: truthy_nonzero scale_locked_zero_width)
  qed
  from a b show ?thesis by blast
qed

text \<open>
  The theorem on a new handle of natural size 100 x 50: \<open>scale(width_factor=0)\<close>
  raises, and \<open>resize(width=0, height=100)\<close> is the height-only resize, to 200 x 100.
\<close>

theorem zero_arguments_count_as_absent_witness:
  "scale dec_sized (Some (PyInt 0)) None False example_img =
     (Inl (ValueError ''You must supply width_factor or height_factor''), example_img) \<and>
   default_size dec_sized example_img = (Inr (100, 50), snd (default_size dec_sized example_img)) \<and>
   resize dec_sized (Some (PyInt 0)) (Some (PyInt 100)) example_img =
     resize dec_sized None (Some (PyInt 100)) example_img \<and>
   under_width (snd (resize dec_sized (Some (PyInt 0)) (Some (PyInt 100)) example_img)) = Some 200 \<and>
   under_height (snd (resize dec_sized (Some (PyInt 0)) (Some (PyInt 100)) example_img)) = Some 100"
proof -
  have h: "default_size dec_sized example_img =
      (Inr (100, 50), snd (default_size dec_sized example_img))"
    by (simp add: example_img_def img_defs dec_sized_def)
  have e: "under_width (snd (resize dec_sized (Some (PyInt 0)) (Some (PyInt 100)) example_img)) = Some 200"
    "under_height (snd (resize dec_sized (Some (PyInt 0)) (Some (PyInt 100)) example_img)) = Some 100"
    by (simp_all add: example_img_def img_defs dec_sized_def py_round_def pattern_matrix_def)
  note t = zero_arguments_count_as_absent[of "Some (PyInt 0)" None dec_sized False example_img
      "PyInt 100"]
  from conjunct1[OF t]
  have a: "scale dec_sized (Some (PyInt 0)) None False example_img =
     (Inl (ValueError ''You must supply width_factor or height_factor''), example_img)"
    by simp
  from conjunct2[OF t, rule_format, of "(100, 50)" "snd (default_size dec_sized example_img)"] h
  have b: "resize dec_sized (Some (PyInt 0)) (Some (PyInt 100)) example_img =
      resize dec_sized None (Some (PyInt 100)) example_img"
    by simp
  from a b h e show ?thesis by blast
qed

section \<open>The natural size\<close>





section \<open>The pattern and the current size\<close>

lemma current_pattern_getters:
  assumes "current_pattern s pt"
  shows "\<exists>w h t. width dec s = (Inr w, s) \<and> height dec s = (Inr h, s) \<and> theta s = (Inr t, s) \<and>
           surface dec s = (Inr (pat_surface pt), s) \<and>
           pattern_matrix (pat_surface pt) (Some (real_of_int w)) (Some (real_of_int h)) t =
             Inr (pat_matrix pt)"
proof -
  from assms obtain w h where w: "cur_width s = Some w" and h: "cur_height s = Some h"
    and rest: "under_surface s = Some (pat_surface pt)"
      "pattern_matrix (pat_surface pt) (Some (real_of_int w)) (Some (real_of_int h))
         (cur_theta s) = Inr (pat_matrix pt)"
    by (auto simp: current_pattern_def split: option.splits)
  have "theta s = (Inr (cur_theta s), s)"
    by (simp add: theta_def cur_theta_def split: option.splits)
  with width_known[OF w] height_known[OF h] surface_cached[OF rest(1)] rest(2)
  show ?thesis by blast
qed

lemma pattern_read_current:
  assumes c: "caches_ok s" and rd: "pattern dec s = (Inr pt, s1)"
  shows "current_pattern s1 pt \<and> under_pattern s1 = Some pt \<and>
         (under_pattern s = None \<longrightarrow> next_id s \<le> pid pt) \<and>
         under_width s1 = under_width s \<and> under_height s1 = under_height s \<and>
         under_theta s1 = under_theta s"
proof (cases "under_pattern s")
  case (Some p0)
  with rd have "pt = p0" "s1 = s" by (simp_all add: pattern_cached)
  with Some c show ?thesis by (simp add: caches_ok_def)
next
  case None
  from c have ids: "\<forall>sf. under_surface s = Some sf \<longrightarrow> sid sf < next_id s"
    by (simp add: caches_ok_def)
  from pattern_build[OF None ids rd] show ?thesis
    by (simp add: frame_def)
qed

lemma write_invalidates:
  assumes c: "caches_ok s"
    and rs: "reset dec s0 = (r, s1)"
    and attrs: "bytes_img s0 = bytes_img s" "under_default_surface s0 = under_default_surface s"
      "under_default_size s0 = under_default_size s" "next_id s0 = next_id s"
      "under_surface s0 = under_surface s" "under_pattern s0 = under_pattern s"
  shows "under_pattern s1 = None \<and>
         (\<forall>sf. under_surface s = Some sf \<longrightarrow>
            under_surface s1 \<noteq> Some sf \<and> sid sf \<in> set (finished s1)) \<and>
         (\<forall>p0 pt s2. under_pattern s = Some p0 \<and> pattern dec s1 = (Inr pt, s2) \<longrightarrow> pt \<noteq> p0)"
proof -
  note res = reset_after_write(2)[OF rs attrs c]
  note mono = reset_after_write(1)[OF rs attrs]
  have a: "under_surface s1 \<noteq> Some sf" if "under_surface s = Some sf" for sf
  proof
    assume "under_surface s1 = Some sf"
    with res have "next_id s \<le> sid sf" by simp
    moreover from c that have "sid sf < next_id s" by (simp add: caches_ok_def)
    ultimately show False by simp
  qed
  have b: "pt \<noteq> p0" if "under_pattern s = Some p0" "pattern dec s1 = (Inr pt, s2)" for p0 pt s2
  proof -
    from res have c1: "caches_ok s1" and none: "under_pattern s1 = None" by simp_all
    from pattern_read_current[OF c1 that(2)] none have "next_id s1 \<le> pid pt" by simp
    moreover from c that(1) have "pid p0 < next_id s" by (simp add: caches_ok_def)
    ultimately show ?thesis using mono by auto
  qed
  from res a b show ?thesis by blast
qed

text \<open>
  As long as no attribute is deleted, the pattern is never stale. Take any sequence of
  reads, writes, \<open>resize\<close> and \<open>scale\<close> on a new handle, with none of
  \<open>del img.surface\<close>, \<open>del img.width\<close>, \<open>del img.height\<close> and \<open>del img.theta\<close>.
  In the state it leads to, a pattern read that returns gives a pattern whose matrix is
  the one \<open>get_cairo_pattern\<close> computes from the cached surface and the width, height
  and theta that the handle has at that moment, and the read changes none of the three.
  A write of width or height leaves no cached pattern, finishes the surface that was
  cached and no longer holds it, and the next pattern read returns an object other than
  the pattern cached before the write.
\<close>

lemma pattern_current_without_deletes:
  assumes "set ops \<inter> {Del_surface, Del_width, Del_height, Del_theta} = {}"
    and "s = run dec ops (Img b n p)"
  shows "(\<forall>pt s1. pattern dec s = (Inr pt, s1) \<longrightarrow>
            under_width s1 = under_width s \<and> under_height s1 = under_height s \<and>
            under_theta s1 = under_theta s \<and>
            (\<exists>w h t. width dec s1 = (Inr w, s1) \<and> height dec s1 = (Inr h, s1) \<and>
               theta s1 = (Inr t, s1) \<and> surface dec s1 = (Inr (pat_surface pt), s1) \<and>
               pattern_matrix (pat_surface pt) (Some (real_of_int w)) (Some (real_of_int h)) t =
                 Inr (pat_matrix pt))) \<and>
         (\<forall>v r s1. set_width dec v s = (r, s1) \<or> set_height dec v s = (r, s1) \<longrightarrow>
            under_pattern s1 = None \<and>
            (\<forall>sf. under_surface s = Some sf \<longrightarrow>
               under_surface s1 \<noteq> Some sf \<and> sid sf \<in> set (finished s1)) \<and>
            (\<forall>p0 pt s2. under_pattern s = Some p0 \<and> pattern dec s1 = (Inr pt, s2) \<longrightarrow> pt \<noteq> p0))"
proof -
  have c: "caches_ok s"
    unfolding assms(2) by (rule run_caches_ok[OF Img_ok(2) assms(1)])
  have rd: "under_width s1 = under_width s \<and> under_height s1 = under_height s \<and>
            under_theta s1 = under_theta s \<and>
            (\<exists>w h t. width dec s1 = (Inr w, s1) \<and> height dec s1 = (Inr h, s1) \<and>
               theta s1 = (Inr t, s1) \<and> surface dec s1 = (Inr (pat_surface pt), s1) \<and>
               pattern_matrix (pat_surface pt) (Some (real_of_int w)) (Some (real_of_int h)) t =
                 Inr (pat_matrix pt))"
    if "pattern dec s = (Inr pt, s1)" for pt s1
    using pattern_read_current[OF c that] current_pattern_getters[of s1 pt dec] by blast
  have wr: "under_pattern s1 = None \<and>
            (\<forall>sf. under_surface s = Some sf \<longrightarrow>
               under_surface s1 \<noteq> Some sf \<and> sid sf \<in> set (finished s1)) \<and>
            (\<forall>p0 pt s2. under_pattern s = Some p0 \<and> pattern dec s1 = (Inr pt, s2) \<longrightarrow> pt \<noteq> p0)"
    if "set_width dec v s = (r, s1) \<or> set_height dec v s = (r, s1)" for v r s1
    using that
  proof
    assume "set_width dec v s = (r, s1)"
    then have "reset dec (s\<lparr>under_width := Some (max (py_round v) 1)\<rparr>) = (r, s1)"
      by (simp add: set_width_def Let_def)
    from write_invalidates[OF c this] show ?thesis by simp
  next
    assume "set_height dec v s = (r, s1)"
    then have "reset dec (s\<lparr>under_height := Some (max (py_round v) 1)\<rparr>) = (r, s1)"
      by (simp add: set_height_def Let_def)
    from write_invalidates[OF c this] show ?thesis by simp
  qed
  from rd wr show ?thesis by blast
qed

text \<open>
  C3. A pattern read can return a pattern built from a width that the handle no longer
  has. \<open>_Descriptor.__delete__\<close> removes the stored width and, unlike \<open>__set__\<close> of
  \<open>_Resetter\<close>, does not call \<open>_reset\<close>. On a new handle of natural size 100 x 50:
  after \<open>img.width = 40\<close>, a pattern read and \<open>del img.width\<close>, the width reads 100,
  the height 50 and theta 0, and the pattern read still returns the pattern cached
  before, on the surface decoded at 40 x 50 and with the identity matrix; the matrix
  that \<open>get_cairo_pattern\<close> computes from that surface and the current size scales
  by 2/5.
\<close>

theorem deleted_width_leaves_stale_pattern:
  "width dec_sized (run dec_sized [Set_width 40, Get_pattern, Del_width] example_img) =
     (Inr 100, run dec_sized [Set_width 40, Get_pattern, Del_width] example_img) \<and>
   height dec_sized (run dec_sized [Set_width 40, Get_pattern, Del_width] example_img) =
     (Inr 50, run dec_sized [Set_width 40, Get_pattern, Del_width] example_img) \<and>
   theta (run dec_sized [Set_width 40, Get_pattern, Del_width] example_img) =
     (Inr 0, run dec_sized [Set_width 40, Get_pattern, Del_width] example_img) \<and>
   pattern dec_sized (run dec_sized [Set_width 40, Get_pattern, Del_width] example_img) =
     (Inr \<lparr>pid = 4, pat_surface = \<lparr>sid = 2, get_width = 40, get_height = 50\<rparr>,
           pat_matrix = \<lparr>xx = 1, yx = 0, xy = 0, yy = 1, x0 = 0, y0 = 0\<rparr>\<rparr>,
      run dec_sized [Set_width 40, Get_pattern, Del_width] example_img) \<and>
   pattern_matrix \<lparr>sid = 2, get_width = 40, get_height = 50\<rparr> (Some 100) (Some 50) 0 =
     Inr \<lparr>xx = 2 / 5, yx = 0, xy = 0, yy = 1, x0 = 0, y0 = 0\<rparr>"
  by (simp add: run_def example_img_def img_defs dec_sized_def py_round_def pattern_matrix_def
      scale_matrix_def multiply_def Matrix_def del_width_def)

text \<open>
  A write can leave a stale pattern too. \<open>_reset\<close> tests \<open>hasattr(self, "surface")\<close>,
  which decodes a surface when none is cached; after \<open>del img.surface\<close>, a write of
  width 20 whose decoding raises leaves \<open>_reset\<close> before the pattern is dropped. The
  width is then 20, and the pattern read returns the pattern built for width 100.
\<close>

lemma raising_write_leaves_stale_pattern:
  "under_width (run dec_picky [Get_pattern, Del_surface, Set_width 20] example_img) = Some 20 \<and>
   fst (set_width dec_picky 20 (run dec_picky [Get_pattern, Del_surface] example_img)) =
     Inl ImageLoadingError \<and>
   pattern dec_picky (run dec_picky [Get_pattern, Del_surface, Set_width 20] example_img) =
     (Inr \<lparr>pid = 2, pat_surface = \<lparr>sid = 1, get_width = 100, get_height = 50\<rparr>,
           pat_matrix = \<lparr>xx = 1, yx = 0, xy = 0, yy = 1, x0 = 0, y0 = 0\<rparr>\<rparr>,
      run dec_picky [Get_pattern, Del_surface, Set_width 20] example_img) \<and>
   pattern_matrix \<lparr>sid = 1, get_width = 100, get_height = 50\<rparr> (Some 20) (Some 50) 0 =
     Inr \<lparr>xx = 5, yx = 0, xy = 0, yy = 1, x0 = 0, y0 = 0\<rparr>"
  by (simp add: run_def example_img_def img_defs dec_picky_def py_round_def pattern_matrix_def
      scale_matrix_def multiply_def Matrix_def)

end
